theory Spec2Isabelle
  imports Complex_Main "HOL-Library.AList" "HOL-Library.Multiset"
begin

section \<open>BeatBattles server: room codes and the room service\<close>

text \<open>
  A shallow embedding of \<^verbatim>\<open>server/src/utils/roomUtils.ts\<close> and
  \<^verbatim>\<open>server/src/services/roomService.ts\<close>.

  \<^item> Strings are \<open>string\<close>; one \<open>char\<close> stands for one UTF-16 code unit.
  \<^item> \<^verbatim>\<open>Room | undefined\<close> is \<open>room option\<close>.
  \<^item> \<^verbatim>\<open>Math.random()\<close>, \<^verbatim>\<open>uuidv4()\<close> and \<^verbatim>\<open>new Date()\<close> are inputs of the
    functions that call them: a real number, a string and an integer (milliseconds).
    Floating-point rounding is not modelled. \<^verbatim>\<open>generateRoomCode\<close> multiplies by 32, which is
    exact in doubles; \<^verbatim>\<open>startGame\<close> multiplies by 10, which is not, so its input is the
    double that the product evaluates to.
  \<^item> The two module-level \<^verbatim>\<open>Map\<close>s are the record \<open>store\<close>, passed in and returned.
    \<open>rooms\<close> is an association list, because \<^verbatim>\<open>getAvailableRooms\<close> reads it in
    insertion order: \<open>AList.update\<close> overwrites in place or appends, as \<^verbatim>\<open>Map.set\<close> does.
  \<^item> A room object is mutated in place in the source; the model writes the changed room back
    under \<^verbatim>\<open>room.id\<close>, where the source calls \<^verbatim>\<open>rooms.set(room.id, room)\<close>.
  \<^item> \<^verbatim>\<open>maxPlayers\<close> and the times are integers: the model covers the calls that pass
    an integer capacity, negative ones and zero included.
  \<^item> The field \<^verbatim>\<open>id\<close> of a user and of a room is \<open>user_id\<close> and \<open>room_id\<close>; the field
    \<^verbatim>\<open>code\<close> of a room is \<open>room_code\<close>; the fields of \<^verbatim>\<open>GameState\<close> carry the prefix
    \<open>gs_\<close>.
\<close>

subsection \<open>Types (types/index.ts)\<close>

text \<open>
  An optional property of a JavaScript object is missing, present with the value
  \<^verbatim>\<open>undefined\<close>, or present with a value; object spread tells the first from the second.
\<close>

datatype 'a optional = Absent | Undefined | Defined 'a

record user =
  user_id :: string
  username :: string
  avatar :: "string optional"
  isConnected :: bool
  socketId :: "string optional"

datatype RoomStatus = WAITING | COMPOSING | VOTING | RESULTS

record room =
  room_id :: string
  room_code :: string
  status :: RoomStatus
  hostId :: string
  players :: "user list"
  maxPlayers :: int
  theme :: "string option"
  createdAt :: int
  updatedAt :: int

record gameState =
  gs_roomId :: string
  gs_status :: RoomStatus
  gs_theme :: "string option"
  gs_timeRemaining :: "int option"

record store =
  rooms :: "(string \<times> room) list"
  roomsByCode :: "string \<rightharpoonup> string"

definition emptyStore :: store where
  "emptyStore = \<lparr>rooms = [], roomsByCode = Map.empty\<rparr>"

subsection \<open>Room codes (utils/roomUtils.ts)\<close>

definition characters :: string where
  "characters = ''ABCDEFGHJKLMNPQRSTUVWXYZ23456789''"

text \<open>\<^verbatim>\<open>String.prototype.charAt\<close>: the empty string out of range.\<close>

definition charAt :: "string \<Rightarrow> int \<Rightarrow> string" where
  "charAt s i = (if 0 \<le> i \<and> i < int (length s) then [s ! nat i] else [])"

text \<open>
  \<open>random i\<close> is what \<^verbatim>\<open>Math.random()\<close> returns in iteration \<open>i\<close> of the loop.
\<close>

definition generateRoomCode :: "(nat \<Rightarrow> real) \<Rightarrow> string" where
  "generateRoomCode random =
     foldl (\<lambda>result i.
              result @ charAt characters \<lfloor>random i * real (length characters)\<rfloor>)
       [] [0..<6]"

text \<open>The character class \<^verbatim>\<open>[A-Z0-9]\<close>.\<close>

definition isUpperOrDigit :: "char \<Rightarrow> bool" where
  "isUpperOrDigit c =
     (let n = (of_char c :: nat) in (65 \<le> n \<and> n \<le> 90) \<or> (48 \<le> n \<and> n \<le> 57))"

text \<open>The regular expression \<^verbatim>\<open>/^[A-Z0-9]{6}$/\<close>.\<close>

definition isValidRoomCode :: "string \<Rightarrow> bool" where
  "isValidRoomCode c = (length c = 6 \<and> list_all isUpperOrDigit c)"

text \<open>
  \<^verbatim>\<open>formatRoomCode\<close> is tested on \<^verbatim>\<open>null\<close> and \<^verbatim>\<open>undefined\<close> too, so its argument is a
  string or one of the two.
\<close>

datatype jsString = JsNull | JsUndefined | JsString string

definition formatRoomCode :: "jsString \<Rightarrow> jsString" where
  "formatRoomCode c =
     (case c of
        JsString s \<Rightarrow>
          if s = [] \<or> length s \<noteq> 6 then c
          else JsString (take 3 s @ '' '' @ drop 3 s)
      | _ \<Rightarrow> c)"

subsection \<open>Array helpers\<close>

text \<open>\<^verbatim>\<open>Array.prototype.findIndex\<close>; \<open>None\<close> is the source's \<open>-1\<close>.\<close>

fun findIndex :: "('a \<Rightarrow> bool) \<Rightarrow> 'a list \<Rightarrow> nat option" where
  "findIndex P [] = None"
| "findIndex P (x # xs) = (if P x then Some 0 else map_option Suc (findIndex P xs))"

text \<open>
  \<^verbatim>\<open>Array.prototype.sort\<close> with a comparator: a stable sort, here by insertion. An
  element goes before the first one it does not compare greater than.
\<close>

fun insert_by :: "('a \<Rightarrow> 'a \<Rightarrow> int) \<Rightarrow> 'a \<Rightarrow> 'a list \<Rightarrow> 'a list" where
  "insert_by cmp x [] = [x]"
| "insert_by cmp x (y # ys) = (if cmp x y \<le> 0 then x # y # ys else y # insert_by cmp x ys)"

definition sort_by :: "('a \<Rightarrow> 'a \<Rightarrow> int) \<Rightarrow> 'a list \<Rightarrow> 'a list" where
  "sort_by cmp xs = foldr (insert_by cmp) xs []"

text \<open>\<^verbatim>\<open>{...existing, ...user}\<close>: a property present in \<open>u\<close> wins.\<close>

definition spread_optional :: "'a optional \<Rightarrow> 'a optional \<Rightarrow> 'a optional" where
  "spread_optional old new = (case new of Absent \<Rightarrow> old | _ \<Rightarrow> new)"

definition spread_user :: "user \<Rightarrow> user \<Rightarrow> user" where
  "spread_user existing u =
     \<lparr>user_id = user_id u, username = username u,
      avatar = spread_optional (avatar existing) (avatar u),
      isConnected = isConnected u,
      socketId = spread_optional (socketId existing) (socketId u)\<rparr>"

subsection \<open>The room service (services/roomService.ts)\<close>

text \<open>
  The loop of \<^verbatim>\<open>createRoom\<close> draws codes until one is free. \<open>draws\<close> holds the random
  source of each call of \<^verbatim>\<open>generateRoomCode\<close>; \<open>None\<close> says that the loop has not
  ended within them.
\<close>

fun uniqueRoomCode :: "(string \<rightharpoonup> string) \<Rightarrow> (nat \<Rightarrow> real) list \<Rightarrow> string option" where
  "uniqueRoomCode byCode [] = None"
| "uniqueRoomCode byCode (random # draws) =
     (let roomCode = generateRoomCode random
      in if byCode roomCode \<noteq> None then uniqueRoomCode byCode draws else Some roomCode)"

definition createRoom ::
  "store \<Rightarrow> user \<Rightarrow> int option \<Rightarrow> (nat \<Rightarrow> real) list \<Rightarrow> string \<Rightarrow> int \<Rightarrow> (room \<times> store) option" where
  "createRoom s host maxPlayersArg draws roomId now =
     (case uniqueRoomCode (roomsByCode s) draws of
        None \<Rightarrow> None
      | Some roomCode \<Rightarrow>
          let r = \<lparr>room_id = roomId, room_code = roomCode, status = WAITING,
                   hostId = user_id host, players = [host],
                   maxPlayers = (case maxPlayersArg of None \<Rightarrow> 10 | Some n \<Rightarrow> n),
                   theme = None, createdAt = now, updatedAt = now\<rparr>
          in Some (r, s\<lparr>rooms := AList.update roomId r (rooms s),
                         roomsByCode := (roomsByCode s)(roomCode \<mapsto> roomId)\<rparr>))"

definition getRoomByCode :: "store \<Rightarrow> string \<Rightarrow> room option" where
  "getRoomByCode s roomCode =
     (if \<not> isValidRoomCode roomCode then None
      else case roomsByCode s roomCode of
             None \<Rightarrow> None
           | Some roomId \<Rightarrow> if roomId = [] then None else map_of (rooms s) roomId)"

definition getRoomById :: "store \<Rightarrow> string \<Rightarrow> room option" where
  "getRoomById s roomId = map_of (rooms s) roomId"

definition joinRoom :: "store \<Rightarrow> string \<Rightarrow> user \<Rightarrow> int \<Rightarrow> room option \<times> store" where
  "joinRoom s roomCode u now =
     (case getRoomByCode s roomCode of
        None \<Rightarrow> (None, s)
      | Some r \<Rightarrow>
          if int (length (players r)) \<ge> maxPlayers r then (None, s)
          else if status r \<noteq> WAITING then (None, s)
          else
            let r1 = (case findIndex (\<lambda>p. user_id p = user_id u) (players r) of
                        Some existingUserIndex \<Rightarrow>
                          r\<lparr>players := (players r)
                               [existingUserIndex :=
                                  (spread_user (players r ! existingUserIndex) u)
                                    \<lparr>isConnected := True\<rparr>]\<rparr>
                      | None \<Rightarrow> r\<lparr>players := players r @ [u\<lparr>isConnected := True\<rparr>]\<rparr>);
                r2 = r1\<lparr>updatedAt := now\<rparr>
            in (Some r2, s\<lparr>rooms := AList.update (room_id r2) r2 (rooms s)\<rparr>))"

definition leaveRoom :: "store \<Rightarrow> string \<Rightarrow> string \<Rightarrow> int \<Rightarrow> room option \<times> store" where
  "leaveRoom s roomCode userId now =
     (case getRoomByCode s roomCode of
        None \<Rightarrow> (None, s)
      | Some r \<Rightarrow>
          (case findIndex (\<lambda>p. user_id p = userId) (players r) of
             None \<Rightarrow> (Some r, s)
           | Some userIndex \<Rightarrow>
               let r1 = (if hostId r = userId \<and> length (players r) > 1
                         then (case find (\<lambda>p. user_id p \<noteq> userId \<and> isConnected p) (players r) of
                                 Some newHost \<Rightarrow> r\<lparr>hostId := user_id newHost\<rparr>
                               | None \<Rightarrow> r)
                         else r);
                   r2 = r1\<lparr>players := filter (\<lambda>p. user_id p \<noteq> userId) (players r1)\<rparr>
               in if length (players r2) = 0
                  then (None, s\<lparr>rooms := AList.delete (room_id r2) (rooms s),
                                 roomsByCode := (roomsByCode s)(room_code r2 := None)\<rparr>)
                  else let r3 = r2\<lparr>updatedAt := now\<rparr>
                       in (Some r3, s\<lparr>rooms := AList.update (room_id r3) r3 (rooms s)\<rparr>)))"

definition themes :: "string list" where
  "themes = [''Space Adventure'', ''Underwater Journey'', ''Jungle Expedition'',
             ''Desert Mirage'', ''Cyberpunk City'', ''Medieval Castle'', ''Haunted Mansion'',
             ''Tropical Paradise'', ''Arctic Wilderness'', ''Steampunk Factory'']"

text \<open>Reading an array at an index: \<^verbatim>\<open>undefined\<close> out of range.\<close>

definition at_index :: "'a list \<Rightarrow> int \<Rightarrow> 'a option" where
  "at_index xs i = (if 0 \<le> i \<and> i < int (length xs) then Some (xs ! nat i) else None)"

text \<open>
  \<open>scaled\<close> is the double that \<^verbatim>\<open>Math.random() * themes.length\<close> evaluates to; the
  source applies \<^verbatim>\<open>Math.floor\<close> to it and reads \<^verbatim>\<open>themes\<close> at that index.
\<close>

definition startGame :: "store \<Rightarrow> string \<Rightarrow> string \<Rightarrow> real \<Rightarrow> int \<Rightarrow> room option \<times> store" where
  "startGame s roomCode userId scaled now =
     (case getRoomByCode s roomCode of
        None \<Rightarrow> (None, s)
      | Some r \<Rightarrow>
          if hostId r \<noteq> userId then (None, s)
          else if length (players r) < 2 then (None, s)
          else
            let randomTheme = at_index themes \<lfloor>scaled\<rfloor>;
                r1 = r\<lparr>status := COMPOSING, theme := randomTheme, updatedAt := now\<rparr>
            in (Some r1, s\<lparr>rooms := AList.update (room_id r1) r1 (rooms s)\<rparr>))"

definition compareCreatedAt :: "room \<Rightarrow> room \<Rightarrow> int" where
  "compareCreatedAt a b = createdAt b - createdAt a"

definition getAvailableRooms :: "store \<Rightarrow> room list" where
  "getAvailableRooms s =
     sort_by compareCreatedAt
       (filter (\<lambda>r. status r = WAITING \<and> int (length (players r)) < maxPlayers r)
          (map snd (rooms s)))"

definition updateUserConnection ::
  "store \<Rightarrow> string \<Rightarrow> string \<Rightarrow> bool \<Rightarrow> string option \<Rightarrow> int \<Rightarrow> room option \<times> store" where
  "updateUserConnection s roomId userId isConnectedArg socketIdArg now =
     (case getRoomById s roomId of
        None \<Rightarrow> (None, s)
      | Some r \<Rightarrow>
          (case findIndex (\<lambda>p. user_id p = userId) (players r) of
             None \<Rightarrow> (Some r, s)
           | Some userIndex \<Rightarrow>
               let r1 = r\<lparr>players := (players r)
                            [userIndex :=
                               (players r ! userIndex)
                                 \<lparr>isConnected := isConnectedArg,
                                  socketId := (if isConnectedArg
                                               then (case socketIdArg of
                                                       None \<Rightarrow> Undefined
                                                     | Some sid \<Rightarrow> Defined sid)
                                               else Undefined)\<rparr>]\<rparr>;
                   r2 = r1\<lparr>updatedAt := now\<rparr>
               in (Some r2, s\<lparr>rooms := AList.update (room_id r2) r2 (rooms s)\<rparr>)))"

fun getTimeRemaining :: "room \<Rightarrow> int option" where
  "getTimeRemaining r =
     (case status r of COMPOSING \<Rightarrow> Some 300 | VOTING \<Rightarrow> Some 120 | _ \<Rightarrow> None)"

definition getGameState :: "store \<Rightarrow> string \<Rightarrow> gameState option" where
  "getGameState s roomId =
     (case getRoomById s roomId of
        None \<Rightarrow> None
      | Some r \<Rightarrow>
          Some \<lparr>gs_roomId = room_id r, gs_status = status r, gs_theme = theme r,
                gs_timeRemaining = getTimeRemaining r\<rparr>)"

text \<open>
  The body of the loop of \<^verbatim>\<open>cleanupDisconnectedUsers\<close> for one entry of \<^verbatim>\<open>rooms\<close>;
  \<open>now roomId\<close> is the clock read while that entry is swept.
\<close>

definition cleanupEntry :: "(string \<Rightarrow> int) \<Rightarrow> store \<Rightarrow> string \<times> room \<Rightarrow> store" where
  "cleanupEntry now s entry =
     (case entry of (roomId, r) \<Rightarrow>
        let updatedPlayers = filter isConnected (players r)
        in if length updatedPlayers \<noteq> length (players r)
           then
             let r1 = r\<lparr>players := updatedPlayers, updatedAt := now roomId\<rparr>
             in if length (players r1) = 0
                then s\<lparr>rooms := AList.delete roomId (rooms s),
                       roomsByCode := (roomsByCode s)(room_code r1 := None)\<rparr>
                else
                  let r2 = (if \<not> list_ex (\<lambda>p. user_id p = hostId r1) (players r1)
                            then r1\<lparr>hostId := user_id (players r1 ! 0)\<rparr> else r1)
                  in s\<lparr>rooms := AList.update roomId r2 (rooms s)\<rparr>
           else s)"

definition cleanupDisconnectedUsers :: "(string \<Rightarrow> int) \<Rightarrow> store \<Rightarrow> store" where
  "cleanupDisconnectedUsers now s = foldl (cleanupEntry now) s (rooms s)"

text \<open>\<^verbatim>\<open>_resetRoomStorageForTesting\<close> clears both maps.\<close>

definition resetRoomStorageForTesting :: "store \<Rightarrow> store" where
  "resetRoomStorageForTesting s = s\<lparr>rooms := [], roomsByCode := Map.empty\<rparr>"

subsection \<open>Sequences of service calls\<close>

datatype call =
    CreateRoom user "int option" "(nat \<Rightarrow> real) list" string int
  | JoinRoom string user int
  | LeaveRoom string string int
  | StartGame string string real int
  | UpdateUserConnection string string bool "string option" int
  | GetGameState string
  | CleanupDisconnectedUsers "string \<Rightarrow> int"
  | ResetRoomStorageForTesting

text \<open>The store after one call; \<open>None\<close> when \<^verbatim>\<open>createRoom\<close> does not return.\<close>

fun step :: "store \<Rightarrow> call \<Rightarrow> store option" where
  "step s (CreateRoom host maxPlayersArg draws roomId now) =
     map_option snd (createRoom s host maxPlayersArg draws roomId now)"
| "step s (JoinRoom roomCode u now) = Some (snd (joinRoom s roomCode u now))"
| "step s (LeaveRoom roomCode userId now) = Some (snd (leaveRoom s roomCode userId now))"
| "step s (StartGame roomCode userId scaled now) =
     Some (snd (startGame s roomCode userId scaled now))"
| "step s (UpdateUserConnection roomId userId isConnectedArg socketIdArg now) =
     Some (snd (updateUserConnection s roomId userId isConnectedArg socketIdArg now))"
| "step s (GetGameState roomId) = Some s"
| "step s (CleanupDisconnectedUsers now) = Some (cleanupDisconnectedUsers now s)"
| "step s ResetRoomStorageForTesting = Some (resetRoomStorageForTesting s)"

fun run :: "store \<Rightarrow> call list \<Rightarrow> store option" where
  "run s [] = Some s"
| "run s (c # cs) = (case step s c of None \<Rightarrow> None | Some s' \<Rightarrow> run s' cs)"

text \<open>The position of a status in the declaration of \<^verbatim>\<open>RoomStatus\<close>.\<close>

fun phaseIndex :: "RoomStatus \<Rightarrow> nat" where
  "phaseIndex WAITING = 0"
| "phaseIndex COMPOSING = 1"
| "phaseIndex VOTING = 2"
| "phaseIndex RESULTS = 3"

text \<open>The identifier under which a call stores a new room.\<close>

fun createdId :: "call \<Rightarrow> string option" where
  "createdId (CreateRoom host maxPlayersArg draws roomId now) = Some roomId"
| "createdId c = None"

subsection \<open>Invariants of the store\<close>

text \<open>
  What holds of every entry of \<open>rooms\<close> after any sequence of calls from the empty store:
  the key is the room's id, the room has a member, no two members share an id, the status
  is one that the service ever writes, and a room of capacity at least one is not over it.
\<close>

definition room_inv :: "string \<times> room \<Rightarrow> bool" where
  "room_inv entry =
     (case entry of (roomId, r) \<Rightarrow>
        room_id r = roomId \<and> players r \<noteq> [] \<and> distinct (map user_id (players r))
        \<and> (status r = WAITING \<or> status r = COMPOSING)
        \<and> (1 \<le> maxPlayers r \<longrightarrow> int (length (players r)) \<le> maxPlayers r))"

definition store_inv :: "store \<Rightarrow> bool" where
  "store_inv s = (distinct (map fst (rooms s)) \<and> list_all room_inv (rooms s))"

subsection \<open>Concrete users, rooms and call sequences\<close>

definition user_h :: user where
  "user_h = \<lparr>user_id = ''h'', username = ''H'', avatar = Absent, isConnected = True,
             socketId = Defined ''sock-h''\<rparr>"

definition user_p1 :: user where
  "user_p1 = \<lparr>user_id = ''p1'', username = ''P1'', avatar = Absent, isConnected = False,
              socketId = Absent\<rparr>"

definition zero_draw :: "nat \<Rightarrow> real" where
  "zero_draw i = 0"

definition room_created :: room where
  "room_created =
     \<lparr>room_id = ''r1'', room_code = ''AAAAAA'', status = WAITING, hostId = ''h'',
      players = [user_h], maxPlayers = 4, theme = None, createdAt = 1000, updatedAt = 1000\<rparr>"

definition room_joined :: room where
  "room_joined =
     room_created\<lparr>players := [user_h, user_p1\<lparr>isConnected := True\<rparr>], updatedAt := 2000\<rparr>"

definition room_started :: room where
  "room_started =
     room_joined\<lparr>status := COMPOSING, theme := Some ''Space Adventure'', updatedAt := 3000\<rparr>"

definition room_offline :: room where
  "room_offline =
     room_joined\<lparr>players := [user_h, user_p1\<lparr>isConnected := False, socketId := Undefined\<rparr>],
                 updatedAt := 3000\<rparr>"

definition store_of :: "room \<Rightarrow> store" where
  "store_of r = \<lparr>rooms = [(''r1'', r)], roomsByCode = [''AAAAAA'' \<mapsto> ''r1'']\<rparr>"

definition calls_created :: "int \<Rightarrow> call list" where
  "calls_created capacity = [CreateRoom user_h (Some capacity) [zero_draw] ''r1'' 1000]"

definition calls_joined :: "call list" where
  "calls_joined = calls_created 4 @ [JoinRoom ''AAAAAA'' user_p1 2000]"

definition calls_started :: "call list" where
  "calls_started = calls_joined @ [StartGame ''AAAAAA'' ''h'' 0 3000]"

definition calls_offline :: "call list" where
  "calls_offline = calls_joined @ [UpdateUserConnection ''r1'' ''p1'' False None 3000]"

section \<open>Room codes\<close>

lemma characters_length: "length characters = 32"
  by (simp add: characters_def)

lemma characters_distinct: "distinct characters"
  by (simp add: characters_def)

lemma characters_class: "list_all isUpperOrDigit characters"
  by (simp add: characters_def isUpperOrDigit_def)

lemma characters_unambiguous: "set characters \<inter> set ''01IO'' = {}"
  by (simp add: characters_def)

lemma random_index:
  fixes r :: real
  assumes "0 \<le> r" "r < 1"
  shows "0 \<le> \<lfloor>r * 32\<rfloor> \<and> \<lfloor>r * 32\<rfloor> < 32"
proof -
  have "0 \<le> r * 32" using assms by simp
  moreover have "r * 32 < 32" using assms by simp
  ultimately show ?thesis by (simp add: floor_less_iff)
qed

lemma charAt_characters:
  assumes "0 \<le> r" "r < 1"
  shows "charAt characters \<lfloor>r * real (length characters)\<rfloor> = [characters ! nat \<lfloor>r * 32\<rfloor>]"
  using random_index [OF assms] by (simp add: charAt_def characters_length)

lemma six_iterations: "[0..<6] = [0, 1, 2, 3, 4, 5::nat]"
  by (simp add: upt_rec)

lemma generateRoomCode_eq:
  assumes "\<forall>i<6. 0 \<le> random i \<and> random i < 1"
  shows "generateRoomCode random = map (\<lambda>i. characters ! nat \<lfloor>random i * 32\<rfloor>) [0..<6]"
proof -
  have "\<And>i. i < 6 \<Longrightarrow>
          charAt characters \<lfloor>random i * real (length characters)\<rfloor>
          = [characters ! nat \<lfloor>random i * 32\<rfloor>]"
    using assms charAt_characters by blast
  then show ?thesis
    unfolding generateRoomCode_def six_iterations by simp
qed

lemma index_interval:
  fixes r :: real
  assumes "0 \<le> r" "r < 1"
  shows "nat \<lfloor>r * 32\<rfloor> = k \<longleftrightarrow> real k / 32 \<le> r \<and> r < (real k + 1) / 32"
proof -
  have "nat \<lfloor>r * 32\<rfloor> = k \<longleftrightarrow> \<lfloor>r * 32\<rfloor> = int k"
    using random_index [OF assms] by auto
  also have "\<dots> \<longleftrightarrow> real k \<le> r * 32 \<and> r * 32 < real k + 1"
    by (auto simp: floor_eq_iff)
  also have "\<dots> \<longleftrightarrow> real k / 32 \<le> r \<and> r < (real k + 1) / 32"
    by (simp add: field_simps)
  finally show ?thesis .
qed

lemma generateRoomCode_zero_draw: "generateRoomCode zero_draw = ''AAAAAA''"
  by (simp add: generateRoomCode_def characters_def charAt_def zero_draw_def six_iterations)

text \<open>
  C5, as the code has it. The alphabet has 32 symbols, not 33: the 26 letters and 10 digits
  without \<open>0\<close>, \<open>1\<close>, \<open>I\<close> and \<open>O\<close>. When every \<^verbatim>\<open>Math.random()\<close> is in \<open>[0, 1)\<close>, the
  code has exactly 6 characters, each of the alphabet, and passes \<open>isValidRoomCode\<close>.
  Position \<open>i\<close> holds symbol \<open>k\<close> exactly when the \<open>i\<close>-th random number lies in
  \<open>[k/32, (k+1)/32)\<close>: the 32 symbols have intervals of the same width, so a uniform
  source gives a uniform choice.
\<close>

theorem generateRoomCode_alphabet32:
  assumes "\<forall>i<6. 0 \<le> random i \<and> random i < 1"
  shows "length (generateRoomCode random) = 6
       \<and> set (generateRoomCode random) \<subseteq> set characters
       \<and> length characters = 32 \<and> distinct characters
       \<and> set characters \<inter> set ''01IO'' = {}
       \<and> isValidRoomCode (generateRoomCode random)
       \<and> (\<forall>i<6. \<forall>k<32. generateRoomCode random ! i = characters ! k
            \<longleftrightarrow> real k / 32 \<le> random i \<and> random i < (real k + 1) / 32)"
proof -
  note eq = generateRoomCode_eq [OF assms]
  have idx: "\<And>i. i < 6 \<Longrightarrow> nat \<lfloor>random i * 32\<rfloor> < 32"
    using assms random_index by (metis nat_less_iff of_nat_numeral)
  have len: "length (generateRoomCode random) = 6" by (simp add: eq)
  have sub: "set (generateRoomCode random) \<subseteq> set characters"
    using idx by (auto simp: eq characters_length)
  have valid: "isValidRoomCode (generateRoomCode random)"
    using len sub characters_class by (auto simp: isValidRoomCode_def list_all_iff)
  have unif: "\<forall>i<6. \<forall>k<32. generateRoomCode random ! i = characters ! k
            \<longleftrightarrow> real k / 32 \<le> random i \<and> random i < (real k + 1) / 32"
  proof (intro allI impI)
    fix i k :: nat assume i: "i < 6" and k: "k < 32"
    have "generateRoomCode random ! i = characters ! nat \<lfloor>random i * 32\<rfloor>"
      using i by (simp add: eq)
    moreover have "characters ! nat \<lfloor>random i * 32\<rfloor> = characters ! k
                   \<longleftrightarrow> nat \<lfloor>random i * 32\<rfloor> = k"
      using idx [OF i] k characters_distinct
      by (simp add: nth_eq_iff_index_eq characters_length)
    moreover have "nat \<lfloor>random i * 32\<rfloor> = k
                   \<longleftrightarrow> real k / 32 \<le> random i \<and> random i < (real k + 1) / 32"
      using assms i index_interval by blast
    ultimately show "generateRoomCode random ! i = characters ! k
            \<longleftrightarrow> real k / 32 \<le> random i \<and> random i < (real k + 1) / 32" by simp
  qed
  show ?thesis
    using len sub valid unif characters_length characters_distinct characters_unambiguous
    by blast
qed

theorem generateRoomCode_alphabet32_witness:
  "0 \<le> (\<lambda>i. real i / 7) 0 \<and> (\<lambda>i. real i / 7) 5 < 1
   \<and> generateRoomCode (\<lambda>i. real i / 7) = ''AEKPUY''
   \<and> length (generateRoomCode (\<lambda>i. real i / 7)) = 6
   \<and> set (generateRoomCode (\<lambda>i. real i / 7)) \<subseteq> set characters
   \<and> isValidRoomCode (generateRoomCode (\<lambda>i. real i / 7))"
proof -
  have h: "\<forall>i<6. 0 \<le> (\<lambda>i. real i / 7) i \<and> (\<lambda>i. real i / 7) i < 1" by simp
  have "generateRoomCode (\<lambda>i. real i / 7) = ''AEKPUY''"
    by (simp add: generateRoomCode_def characters_def charAt_def six_iterations)
  then show ?thesis using generateRoomCode_alphabet32 [OF h] by simp
qed

text \<open>C5 as stated fails: the alphabet of \<open>generateRoomCode\<close> does not have 33 symbols.\<close>

theorem alphabet_33_counterexample: "length characters \<noteq> 33"
  by (simp add: characters_def)

text \<open>
  C8. A string of exactly 6 characters comes back with a space after its third character;
  any other string, \<^verbatim>\<open>null\<close> and \<^verbatim>\<open>undefined\<close> come back as they are, and so does \<open>AB\<close>.
\<close>

theorem formatRoomCode_spec:
  "(length c = 6 \<longrightarrow> formatRoomCode (JsString c) = JsString (take 3 c @ '' '' @ drop 3 c))
   \<and> (length c \<noteq> 6 \<longrightarrow> formatRoomCode (JsString c) = JsString c)
   \<and> formatRoomCode JsNull = JsNull
   \<and> formatRoomCode JsUndefined = JsUndefined
   \<and> formatRoomCode (JsString ''AB'') = JsString ''AB''"
  by (auto simp: formatRoomCode_def)

theorem formatRoomCode_spec_witness:
  "length ''ABC123'' = 6 \<and> formatRoomCode (JsString ''ABC123'') = JsString ''ABC 123''
   \<and> length ''ABC12'' \<noteq> 6 \<and> formatRoomCode (JsString ''ABC12'') = JsString ''ABC12''"
  using formatRoomCode_spec [of "''ABC123''"] formatRoomCode_spec [of "''ABC12''"] by simp

section \<open>The room service\<close>

subsection \<open>Helpers and the concrete call sequences\<close>

lemma findIndex_None_iff: "findIndex P xs = None \<longleftrightarrow> (\<forall>x\<in>set xs. \<not> P x)"
  by (induction xs) auto

lemma findIndex_Some:
  "findIndex P xs = Some i \<Longrightarrow> i < length xs \<and> P (xs ! i) \<and> (\<forall>j<i. \<not> P (xs ! j))"
proof (induction xs arbitrary: i)
  case Nil
  then show ?case by simp
next
  case (Cons x xs)
  show ?case
  proof (cases "P x")
    case True
    with Cons.prems show ?thesis by simp
  next
    case False
    with Cons.prems obtain k where k: "findIndex P xs = Some k" "i = Suc k" by auto
    from Cons.IH [OF k(1)] False k(2) show ?thesis
      by (auto simp: less_Suc_eq_0_disj)
  qed
qed

lemmas concrete_defs =
  store_of_def room_created_def room_joined_def room_started_def room_offline_def
  user_h_def user_p1_def getRoomByCode_def getRoomById_def isValidRoomCode_def
  isUpperOrDigit_def Let_def

lemma valid_AAAAAA: "isValidRoomCode ''AAAAAA''"
  by (simp add: isValidRoomCode_def isUpperOrDigit_def)

lemma run_created:
  "run emptyStore (calls_created capacity) = Some (store_of (room_created\<lparr>maxPlayers := capacity\<rparr>))"
  by (simp add: calls_created_def createRoom_def emptyStore_def generateRoomCode_zero_draw
      concrete_defs)

lemma getRoomByCode_store_of: "getRoomByCode (store_of r) ''AAAAAA'' = Some r"
  by (simp add: getRoomByCode_def store_of_def valid_AAAAAA)

lemma getRoomById_store_of: "getRoomById (store_of r) ''r1'' = Some r"
  by (simp add: getRoomById_def store_of_def)

lemma join_created:
  "joinRoom (store_of room_created) ''AAAAAA'' user_p1 2000 = (Some room_joined, store_of room_joined)"
  by (simp add: joinRoom_def concrete_defs)

lemma run_append:
  "run s (cs @ ds) = (case run s cs of None \<Rightarrow> None | Some s' \<Rightarrow> run s' ds)"
  by (induction cs arbitrary: s) (auto split: option.splits)

lemma room_created_4: "room_created\<lparr>maxPlayers := 4\<rparr> = room_created"
  by (simp add: room_created_def)

lemma run_joined: "run emptyStore calls_joined = Some (store_of room_joined)"
  by (simp add: calls_joined_def run_append run_created room_created_4 join_created)

lemma start_joined:
  "startGame (store_of room_joined) ''AAAAAA'' ''h'' 0 3000 = (Some room_started, store_of room_started)"
  by (simp add: startGame_def concrete_defs at_index_def themes_def)

lemma run_started: "run emptyStore calls_started = Some (store_of room_started)"
  by (simp add: calls_started_def run_append run_joined start_joined)

lemma offline_joined:
  "updateUserConnection (store_of room_joined) ''r1'' ''p1'' False None 3000
   = (Some room_offline, store_of room_offline)"
  by (simp add: updateUserConnection_def concrete_defs)

lemma run_offline: "run emptyStore calls_offline = Some (store_of room_offline)"
  by (simp add: calls_offline_def run_append run_joined offline_joined)

subsection \<open>Leaving a room, unknown users, and the view of the game state\<close>

text \<open>
  C1 at a store that the service reaches: H creates a room, P1 joins, P1's connection is
  set to disconnected, H leaves. No remaining member is connected, so \<open>find\<close> returns
  nothing and \<open>hostId\<close> stays \<open>h\<close>, who is no longer among the members.
\<close>

theorem leaveRoom_host_not_member:
  "run emptyStore calls_offline = Some (store_of room_offline)
   \<and> hostId room_offline = ''h''
   \<and> map user_id (players room_offline) = [''h'', ''p1'']
   \<and> leaveRoom (store_of room_offline) ''AAAAAA'' ''h'' 4000
       = (Some (room_offline\<lparr>players := [user_p1\<lparr>isConnected := False, socketId := Undefined\<rparr>],
                              updatedAt := 4000\<rparr>),
          store_of (room_offline\<lparr>players := [user_p1\<lparr>isConnected := False, socketId := Undefined\<rparr>],
                              updatedAt := 4000\<rparr>))
   \<and> hostId (the (fst (leaveRoom (store_of room_offline) ''AAAAAA'' ''h'' 4000))) = ''h''
   \<and> ''h'' \<notin> set (map user_id (players (the (fst (leaveRoom (store_of room_offline) ''AAAAAA'' ''h'' 4000)))))"
  by (simp add: run_offline leaveRoom_def concrete_defs)

text \<open>
  C6. On an existing room, \<open>leaveRoom\<close> and \<open>updateUserConnection\<close> with a user id
  that no member has return the room and leave the store as it is; with a user id that no
  member has they return nothing only when the room is not found.
\<close>

theorem leave_update_unknown_user:
  "(getRoomByCode s roomCode = Some r \<and> userId \<notin> set (map user_id (players r))
      \<longrightarrow> leaveRoom s roomCode userId now = (Some r, s))
   \<and> (getRoomById s roomId = Some r \<and> userId \<notin> set (map user_id (players r))
      \<longrightarrow> updateUserConnection s roomId userId isConn sock now = (Some r, s))
   \<and> (getRoomByCode s roomCode = None \<longrightarrow> leaveRoom s roomCode userId now = (None, s))
   \<and> (getRoomById s roomId = None
      \<longrightarrow> updateUserConnection s roomId userId isConn sock now = (None, s))"
proof -
  have "userId \<notin> set (map user_id (players r))
        \<Longrightarrow> findIndex (\<lambda>p. user_id p = userId) (players r) = None"
    by (auto simp: findIndex_None_iff)
  then show ?thesis
    by (auto simp: leaveRoom_def updateUserConnection_def)
qed

theorem leave_update_unknown_user_witness:
  "getRoomByCode (store_of room_joined) ''AAAAAA'' = Some room_joined
   \<and> getRoomById (store_of room_joined) ''r1'' = Some room_joined
   \<and> ''zz'' \<notin> set (map user_id (players room_joined))
   \<and> leaveRoom (store_of room_joined) ''AAAAAA'' ''zz'' 5 = (Some room_joined, store_of room_joined)
   \<and> updateUserConnection (store_of room_joined) ''r1'' ''zz'' False None 5
       = (Some room_joined, store_of room_joined)
   \<and> getRoomByCode (store_of room_joined) ''BBBBBB'' = None
   \<and> leaveRoom (store_of room_joined) ''BBBBBB'' ''h'' 5 = (None, store_of room_joined)
   \<and> getRoomById (store_of room_joined) ''r2'' = None
   \<and> updateUserConnection (store_of room_joined) ''r2'' ''h'' False None 5
       = (None, store_of room_joined)"
proof -
  have a: "''zz'' \<notin> set (map user_id (players room_joined))"
    by (simp add: room_joined_def room_created_def user_h_def user_p1_def)
  have b: "getRoomByCode (store_of room_joined) ''BBBBBB'' = None"
    by (simp add: getRoomByCode_def store_of_def)
  have c: "getRoomById (store_of room_joined) ''r2'' = None"
    by (simp add: getRoomById_def store_of_def)
  show ?thesis
    using a b c getRoomByCode_store_of [of room_joined] getRoomById_store_of [of room_joined]
      leave_update_unknown_user [of "store_of room_joined" "''AAAAAA''" room_joined "''zz''" 5 "''r1''" False None]
      leave_update_unknown_user [of "store_of room_joined" "''BBBBBB''" room_joined "''h''" 5 "''r2''" False None]
    by simp
qed

text \<open>
  C7. \<open>getGameState\<close> copies id, status and theme of the room and leaves the store as
  it is. \<open>timeRemaining\<close> is 300 for \<open>COMPOSING\<close>, 120 for \<open>VOTING\<close> and absent
  otherwise: two rooms of the same status have the same value, whatever their
  \<open>updatedAt\<close>.
\<close>

theorem getGameState_projection:
  "(getRoomById s roomId = None \<longrightarrow> getGameState s roomId = None)
   \<and> (getRoomById s roomId = Some r \<longrightarrow>
        getGameState s roomId
        = Some \<lparr>gs_roomId = room_id r, gs_status = status r, gs_theme = theme r,
                 gs_timeRemaining = (if status r = COMPOSING then Some 300
                                     else if status r = VOTING then Some 120 else None)\<rparr>)
   \<and> step s (GetGameState roomId) = Some s
   \<and> (status r = status r' \<longrightarrow> getTimeRemaining r = getTimeRemaining r')
   \<and> getTimeRemaining (r\<lparr>updatedAt := t\<rparr>) = getTimeRemaining r"
  by (cases "status r") (auto simp: getGameState_def)

theorem getGameState_projection_witness:
  "getRoomById (store_of room_started) ''r1'' = Some room_started
   \<and> getGameState (store_of room_started) ''r1''
       = Some \<lparr>gs_roomId = ''r1'', gs_status = COMPOSING, gs_theme = Some ''Space Adventure'',
                gs_timeRemaining = Some 300\<rparr>
   \<and> getRoomById (store_of room_started) ''r2'' = None
   \<and> getGameState (store_of room_started) ''r2'' = None
   \<and> status room_started = status (room_started\<lparr>updatedAt := 0, status := COMPOSING\<rparr>)
   \<and> getTimeRemaining (room_started\<lparr>updatedAt := 0, status := COMPOSING\<rparr>) = Some 300
   \<and> getTimeRemaining (room_joined\<lparr>status := VOTING\<rparr>) = Some 120
   \<and> getTimeRemaining room_joined = None
   \<and> getTimeRemaining (room_joined\<lparr>status := RESULTS\<rparr>) = None"
proof -
  have c: "getRoomById (store_of room_started) ''r2'' = None"
    by (simp add: getRoomById_def store_of_def)
  have d: "status room_started = COMPOSING" "room_id room_started = ''r1''"
    "theme room_started = Some ''Space Adventure''" "status room_joined = WAITING"
    by (simp_all add: room_started_def room_joined_def room_created_def)
  show ?thesis
    using c d getRoomById_store_of [of room_started]
      getGameState_projection [of "store_of room_started" "''r1''" room_started
         "room_started\<lparr>updatedAt := 0, status := COMPOSING\<rparr>" 0]
      getGameState_projection [of "store_of room_started" "''r2''" room_started room_started 0]
    by simp
qed

subsection \<open>The invariant holds after every call\<close>

lemma set_update_subset: "set (AList.update k v al) \<subseteq> insert (k, v) (set al)"
  by (induction al) auto

lemma set_delete_subset: "set (AList.delete k al) \<subseteq> set al"
  by (auto simp: AList.delete_eq)

lemma store_inv_update:
  assumes "store_inv s" "room_inv (k, r)"
  shows "store_inv (s\<lparr>rooms := AList.update k r (rooms s)\<rparr>)"
  using assms set_update_subset [of k r "rooms s"]
  by (auto simp: store_inv_def list_all_iff distinct_update)

lemma store_inv_delete:
  assumes "store_inv s"
  shows "store_inv (s\<lparr>rooms := AList.delete k (rooms s), roomsByCode := m\<rparr>)"
  using assms set_delete_subset [of k "rooms s"]
  by (auto simp: store_inv_def list_all_iff distinct_delete)

lemma store_inv_lookup:
  assumes "store_inv s" "map_of (rooms s) k = Some r"
  shows "room_inv (k, r)"
proof -
  from assms(2) have "(k, r) \<in> set (rooms s)" by (rule map_of_SomeD)
  with assms(1) show ?thesis unfolding store_inv_def list_all_iff by blast
qed

lemma getRoomByCode_stored:
  assumes "getRoomByCode s roomCode = Some r"
  shows "\<exists>k. roomsByCode s roomCode = Some k \<and> map_of (rooms s) k = Some r"
  using assms by (auto simp: getRoomByCode_def split: if_splits option.splits)

lemma getRoomByCode_inv:
  assumes "store_inv s" "getRoomByCode s roomCode = Some r"
  shows "room_inv (room_id r, r) \<and> map_of (rooms s) (room_id r) = Some r"
proof -
  from getRoomByCode_stored [OF assms(2)] obtain k where k: "map_of (rooms s) k = Some r" by blast
  from store_inv_lookup [OF assms(1) k] have "room_inv (k, r)" .
  then show ?thesis using k by (auto simp: room_inv_def)
qed

lemma getRoomById_inv:
  assumes "store_inv s" "getRoomById s roomId = Some r"
  shows "room_inv (room_id r, r) \<and> room_id r = roomId"
  using store_inv_lookup [OF assms(1), of roomId r] assms(2)
  by (auto simp: room_inv_def getRoomById_def)

lemma store_inv_empty: "store_inv emptyStore"
  by (simp add: store_inv_def emptyStore_def)

lemma ids_list_update:
  assumes "i < length xs" "user_id (xs ! i) = user_id x"
  shows "map user_id (xs[i := x]) = map user_id xs"
  using assms by (simp add: map_update list_update_same_conv)

lemma createRoom_inv:
  assumes "store_inv s" "createRoom s host m draws roomId now = Some (r, s')"
  shows "store_inv s'"
proof (cases "uniqueRoomCode (roomsByCode s) draws")
  case None
  with assms(2) show ?thesis by (simp add: createRoom_def)
next
  case (Some roomCode)
  define r0 where "r0 = \<lparr>room_id = roomId, room_code = roomCode, status = WAITING,
          hostId = user_id host, players = [host],
          maxPlayers = (case m of None \<Rightarrow> 10 | Some n \<Rightarrow> n),
          theme = None, createdAt = now, updatedAt = now\<rparr>"
  have "createRoom s host m draws roomId now
        = Some (r0, s\<lparr>rooms := AList.update roomId r0 (rooms s),
                    roomsByCode := (roomsByCode s)(roomCode \<mapsto> roomId)\<rparr>)"
    unfolding createRoom_def r0_def by (simp only: Some option.case Let_def)
  with assms(2) have s': "s' = s\<lparr>rooms := AList.update roomId r0 (rooms s),
                    roomsByCode := (roomsByCode s)(roomCode \<mapsto> roomId)\<rparr>"
    by (metis option.inject prod.inject)
  have "room_inv (roomId, r0)" by (simp add: room_inv_def r0_def)
  from store_inv_update [OF assms(1) this] show ?thesis
    by (simp add: s' store_inv_def)
qed

lemma joined_room_inv:
  assumes "room_inv (k, r)" "int (length (players r)) < maxPlayers r"
  shows "room_inv (k, (case findIndex (\<lambda>p. user_id p = user_id u) (players r) of
                        Some i \<Rightarrow> r\<lparr>players := (players r)
                               [i := (spread_user (players r ! i) u)\<lparr>isConnected := True\<rparr>]\<rparr>
                      | None \<Rightarrow> r\<lparr>players := players r @ [u\<lparr>isConnected := True\<rparr>]\<rparr>)
                    \<lparr>updatedAt := now\<rparr>)"
proof (cases "findIndex (\<lambda>p. user_id p = user_id u) (players r)")
  case None
  then have "user_id u \<notin> set (map user_id (players r))"
    by (auto simp: findIndex_None_iff)
  with assms None show ?thesis by (auto simp: room_inv_def)
next
  case (Some i)
  from findIndex_Some [OF Some] have i: "i < length (players r)" "user_id (players r ! i) = user_id u"
    by auto
  have "map user_id ((players r)[i := (spread_user (players r ! i) u)\<lparr>isConnected := True\<rparr>])
        = map user_id (players r)"
    using i by (intro ids_list_update) (simp_all add: spread_user_def)
  with assms Some show ?thesis by (auto simp: room_inv_def)
qed

lemma joinRoom_cases:
  assumes "joinRoom s roomCode u now = (res, s')"
  shows "(res = None \<and> s' = s)
       \<or> (\<exists>r r2. getRoomByCode s roomCode = Some r
             \<and> int (length (players r)) < maxPlayers r \<and> status r = WAITING
             \<and> r2 = (case findIndex (\<lambda>p. user_id p = user_id u) (players r) of
                        Some i \<Rightarrow> r\<lparr>players := (players r)
                               [i := (spread_user (players r ! i) u)\<lparr>isConnected := True\<rparr>]\<rparr>
                      | None \<Rightarrow> r\<lparr>players := players r @ [u\<lparr>isConnected := True\<rparr>]\<rparr>)
                    \<lparr>updatedAt := now\<rparr>
             \<and> res = Some r2 \<and> room_id r2 = room_id r \<and> status r2 = status r
             \<and> s' = s\<lparr>rooms := AList.update (room_id r) r2 (rooms s)\<rparr>)"
proof (cases "getRoomByCode s roomCode")
  case None
  with assms show ?thesis by (simp add: joinRoom_def)
next
  case (Some r)
  show ?thesis
  proof (cases "int (length (players r)) < maxPlayers r \<and> status r = WAITING")
    case False
    with assms Some show ?thesis by (auto simp: joinRoom_def split: if_splits)
  next
    case True
    then have c: "(maxPlayers r \<le> int (length (players r))) = False"
      "(status r \<noteq> WAITING) = False" by auto
    define r2 where "r2 = (case findIndex (\<lambda>p. user_id p = user_id u) (players r) of
                        Some i \<Rightarrow> r\<lparr>players := (players r)
                               [i := (spread_user (players r ! i) u)\<lparr>isConnected := True\<rparr>]\<rparr>
                      | None \<Rightarrow> r\<lparr>players := players r @ [u\<lparr>isConnected := True\<rparr>]\<rparr>)
                    \<lparr>updatedAt := now\<rparr>"
    have id: "room_id r2 = room_id r" "status r2 = status r"
      by (simp_all add: r2_def split: option.splits)
    have "joinRoom s roomCode u now = (Some r2, s\<lparr>rooms := AList.update (room_id r2) r2 (rooms s)\<rparr>)"
      unfolding joinRoom_def r2_def
      by (simp only: Some option.case c if_False Let_def)
    with assms have "res = Some r2" "s' = s\<lparr>rooms := AList.update (room_id r) r2 (rooms s)\<rparr>"
      by (simp_all add: id)
    with Some True id r2_def show ?thesis by blast
  qed
qed

lemma joinRoom_inv:
  assumes "store_inv s"
  shows "store_inv (snd (joinRoom s roomCode u now))"
proof -
  obtain res s' where j: "joinRoom s roomCode u now = (res, s')" by (cases "joinRoom s roomCode u now")
  from joinRoom_cases [OF j] show ?thesis
  proof
    assume "res = None \<and> s' = s"
    with assms j show ?thesis by simp
  next
    assume "\<exists>r r2. getRoomByCode s roomCode = Some r
             \<and> int (length (players r)) < maxPlayers r \<and> status r = WAITING
             \<and> r2 = (case findIndex (\<lambda>p. user_id p = user_id u) (players r) of
                        Some i \<Rightarrow> r\<lparr>players := (players r)
                               [i := (spread_user (players r ! i) u)\<lparr>isConnected := True\<rparr>]\<rparr>
                      | None \<Rightarrow> r\<lparr>players := players r @ [u\<lparr>isConnected := True\<rparr>]\<rparr>)
                    \<lparr>updatedAt := now\<rparr>
             \<and> res = Some r2 \<and> room_id r2 = room_id r \<and> status r2 = status r
             \<and> s' = s\<lparr>rooms := AList.update (room_id r) r2 (rooms s)\<rparr>"
    then obtain r r2 where r: "getRoomByCode s roomCode = Some r"
      "int (length (players r)) < maxPlayers r"
      and r2: "r2 = (case findIndex (\<lambda>p. user_id p = user_id u) (players r) of
                        Some i \<Rightarrow> r\<lparr>players := (players r)
                               [i := (spread_user (players r ! i) u)\<lparr>isConnected := True\<rparr>]\<rparr>
                      | None \<Rightarrow> r\<lparr>players := players r @ [u\<lparr>isConnected := True\<rparr>]\<rparr>)
                    \<lparr>updatedAt := now\<rparr>"
      and s': "s' = s\<lparr>rooms := AList.update (room_id r) r2 (rooms s)\<rparr>" by blast
    from getRoomByCode_inv [OF assms r(1)] have "room_inv (room_id r, r)" by simp
    from joined_room_inv [OF this r(2), where u=u and now=now] have "room_inv (room_id r, r2)"
      unfolding r2 .
    from store_inv_update [OF assms this] show ?thesis by (simp add: j s')
  qed
qed

lemma findIndex_Some_iff: "(\<exists>i. findIndex P xs = Some i) \<longleftrightarrow> (\<exists>x\<in>set xs. P x)"
  using findIndex_None_iff [of P xs] by (cases "findIndex P xs") auto

lemma hostId_same: "hostId r = h \<Longrightarrow> r\<lparr>hostId := h\<rparr> = r"
  by auto

lemma leaveRoom_member:
  assumes r: "getRoomByCode s roomCode = Some r"
    and m: "userId \<in> set (map user_id (players r))"
  shows "leaveRoom s roomCode userId now =
     (let r2 = r\<lparr>hostId := (if hostId r = userId \<and> length (players r) > 1
                              then (case find (\<lambda>p. user_id p \<noteq> userId \<and> isConnected p) (players r) of
                                      Some newHost \<Rightarrow> user_id newHost
                                    | None \<Rightarrow> hostId r)
                              else hostId r),
                   players := filter (\<lambda>p. user_id p \<noteq> userId) (players r)\<rparr>
      in if filter (\<lambda>p. user_id p \<noteq> userId) (players r) = []
         then (None, s\<lparr>rooms := AList.delete (room_id r) (rooms s),
                        roomsByCode := (roomsByCode s)(room_code r := None)\<rparr>)
         else (Some (r2\<lparr>updatedAt := now\<rparr>),
               s\<lparr>rooms := AList.update (room_id r) (r2\<lparr>updatedAt := now\<rparr>) (rooms s)\<rparr>))"
proof -
  from m obtain i where i: "findIndex (\<lambda>p. user_id p = userId) (players r) = Some i"
    using findIndex_Some_iff [of "\<lambda>p. user_id p = userId" "players r"] by auto
  show ?thesis
    unfolding leaveRoom_def
    by (simp add: r i Let_def hostId_same split: option.splits)
qed

text \<open>
  What \<open>leaveRoom\<close> does for the host when a remaining member is connected: the first
  such member, in join order, is the new host and is still a member.
\<close>

lemma leaveRoom_host_transfer:
  assumes r: "getRoomByCode s roomCode = Some r" and h: "hostId r = userId"
    and m: "userId \<in> set (map user_id (players r))"
    and f: "find (\<lambda>p. user_id p \<noteq> userId \<and> isConnected p) (players r) = Some newHost"
  shows "\<exists>r'. fst (leaveRoom s roomCode userId now) = Some r'
           \<and> hostId r' = user_id newHost \<and> newHost \<in> set (players r')
           \<and> players r' = filter (\<lambda>p. user_id p \<noteq> userId) (players r)"
proof -
  from f have n: "newHost \<in> set (players r)" "user_id newHost \<noteq> userId"
    by (auto simp: find_Some_iff)
  then have keep: "newHost \<in> set (filter (\<lambda>p. user_id p \<noteq> userId) (players r))" by simp
  then have ne: "filter (\<lambda>p. user_id p \<noteq> userId) (players r) \<noteq> []"
    by (metis empty_iff empty_set)
  from m obtain q where q: "q \<in> set (players r)" "user_id q = userId" by auto
  with n have "q \<noteq> newHost" by auto
  with q(1) n(1) have "\<not> length (players r) \<le> 1"
    by (auto simp: le_Suc_eq length_Suc_conv)
  then have two: "1 < length (players r)" by simp
  show ?thesis
    using keep ne two by (simp add: leaveRoom_member [OF r m] h f Let_def)
qed

lemma leaveRoom_nonmember:
  assumes "getRoomByCode s roomCode = Some r" "userId \<notin> set (map user_id (players r))"
  shows "leaveRoom s roomCode userId now = (Some r, s)"
proof -
  from assms(2) have "findIndex (\<lambda>p. user_id p = userId) (players r) = None"
    by (auto simp: findIndex_None_iff)
  with assms(1) show ?thesis by (simp add: leaveRoom_def)
qed

lemma leaveRoom_absent:
  assumes "getRoomByCode s roomCode = None"
  shows "leaveRoom s roomCode userId now = (None, s)"
  using assms by (simp add: leaveRoom_def)

lemma startGame_found:
  assumes "getRoomByCode s roomCode = Some r"
  shows "startGame s roomCode userId scaled now =
     (if hostId r = userId \<and> 2 \<le> length (players r)
      then (Some (r\<lparr>status := COMPOSING,
                     theme := at_index themes \<lfloor>scaled\<rfloor>,
                     updatedAt := now\<rparr>),
            s\<lparr>rooms := AList.update (room_id r)
                       (r\<lparr>status := COMPOSING,
                          theme := at_index themes \<lfloor>scaled\<rfloor>,
                          updatedAt := now\<rparr>) (rooms s)\<rparr>)
      else (None, s))"
  using assms by (simp add: startGame_def Let_def)

lemma startGame_absent:
  assumes "getRoomByCode s roomCode = None"
  shows "startGame s roomCode userId scaled now = (None, s)"
  using assms by (simp add: startGame_def)

lemma updateUserConnection_member:
  assumes "getRoomById s roomId = Some r"
    "findIndex (\<lambda>p. user_id p = userId) (players r) = Some i"
  shows "updateUserConnection s roomId userId c sock now =
     (Some (r\<lparr>players := (players r)
                 [i := (players r ! i)
                    \<lparr>isConnected := c,
                     socketId := (if c then (case sock of None \<Rightarrow> Undefined | Some sid \<Rightarrow> Defined sid)
                                  else Undefined)\<rparr>],
               updatedAt := now\<rparr>),
      s\<lparr>rooms := AList.update (room_id r)
                 (r\<lparr>players := (players r)
                      [i := (players r ! i)
                         \<lparr>isConnected := c,
                          socketId := (if c then (case sock of None \<Rightarrow> Undefined | Some sid \<Rightarrow> Defined sid)
                                       else Undefined)\<rparr>],
                    updatedAt := now\<rparr>) (rooms s)\<rparr>)"
  using assms by (simp add: updateUserConnection_def Let_def)

lemma room_inv_transfer:
  assumes "room_inv (k, r)" "room_id r' = room_id r" "maxPlayers r' = maxPlayers r"
    "status r' = status r \<or> status r' = COMPOSING" "players r' \<noteq> []"
    "distinct (map user_id (players r'))" "length (players r') \<le> length (players r)"
  shows "room_inv (k, r')"
  using assms unfolding room_inv_def by auto

lemma room_inv_filter:
  assumes "room_inv (k, r)" "filter P (players r) \<noteq> []" "room_id r' = room_id r"
    "maxPlayers r' = maxPlayers r" "status r' = status r" "players r' = filter P (players r)"
  shows "room_inv (k, r')"
proof (rule room_inv_transfer [OF assms(1)])
  from assms(1) have "distinct (map user_id (players r))" by (simp add: room_inv_def)
  then show "distinct (map user_id (players r'))"
    unfolding assms(6) by (rule distinct_map_filter)
qed (simp_all add: assms)

lemma leaveRoom_inv:
  assumes "store_inv s"
  shows "store_inv (snd (leaveRoom s roomCode userId now))"
proof (cases "getRoomByCode s roomCode")
  case None
  with assms show ?thesis by (simp add: leaveRoom_absent)
next
  case (Some r)
  from getRoomByCode_inv [OF assms Some] have inv: "room_inv (room_id r, r)" by simp
  show ?thesis
  proof (cases "userId \<in> set (map user_id (players r))")
    case False
    with assms Some show ?thesis by (simp add: leaveRoom_nonmember)
  next
    case True
    show ?thesis
    proof (cases "filter (\<lambda>p. user_id p \<noteq> userId) (players r) = []")
      case empty: True
      from store_inv_delete [OF assms] show ?thesis
        by (simp add: leaveRoom_member [OF Some True] empty)
    next
      case nonempty: False
      have "room_inv (room_id r, r\<lparr>hostId := h,
               players := filter (\<lambda>p. user_id p \<noteq> userId) (players r), updatedAt := now\<rparr>)" for h
        by (rule room_inv_filter [OF inv nonempty]) simp_all
      from store_inv_update [OF assms this] show ?thesis
        by (simp add: leaveRoom_member [OF Some True] nonempty Let_def)
    qed
  qed
qed

lemma startGame_inv:
  assumes "store_inv s"
  shows "store_inv (snd (startGame s roomCode userId scaled now))"
proof (cases "getRoomByCode s roomCode")
  case None
  with assms show ?thesis by (simp add: startGame_absent)
next
  case (Some r)
  from getRoomByCode_inv [OF assms Some] have "room_inv (room_id r, r)" by simp
  then have "room_inv (room_id r, r\<lparr>status := COMPOSING, theme := t, updatedAt := now\<rparr>)" for t
    by (auto simp: room_inv_def)
  from store_inv_update [OF assms this] assms show ?thesis
    by (simp add: startGame_found [OF Some])
qed

lemma updateUserConnection_inv:
  assumes "store_inv s"
  shows "store_inv (snd (updateUserConnection s roomId userId c sock now))"
proof (cases "getRoomById s roomId")
  case None
  with assms show ?thesis by (simp add: updateUserConnection_def)
next
  case (Some r)
  from getRoomById_inv [OF assms Some] have inv: "room_inv (room_id r, r)" by blast
  show ?thesis
  proof (cases "findIndex (\<lambda>p. user_id p = userId) (players r)")
    case None
    with assms Some show ?thesis by (simp add: updateUserConnection_def)
  next
    case (Some i)
    from findIndex_Some [OF Some] have i: "i < length (players r)" "user_id (players r ! i) = userId"
      by auto
    have "map user_id ((players r)[i := (players r ! i)\<lparr>isConnected := c, socketId := x\<rparr>])
          = map user_id (players r)" for x
      using i by (intro ids_list_update) simp_all
    with inv have "room_inv (room_id r,
        r\<lparr>players := (players r)[i := (players r ! i)\<lparr>isConnected := c, socketId := x\<rparr>],
          updatedAt := now\<rparr>)" for x
      by (auto simp: room_inv_def)
    from store_inv_update [OF assms this] show ?thesis
      by (simp add: updateUserConnection_member [OF \<open>getRoomById s roomId = Some r\<close> Some])
  qed
qed

lemma cleanupEntry_inv:
  assumes "store_inv s" "room_inv entry"
  shows "store_inv (cleanupEntry now s entry)"
proof -
  obtain roomId r where e: "entry = (roomId, r)" by (cases entry)
  show ?thesis
  proof (cases "length (filter isConnected (players r)) \<noteq> length (players r)")
    case False
    with assms show ?thesis by (simp add: cleanupEntry_def e)
  next
    case changed: True
    show ?thesis
    proof (cases "filter isConnected (players r) = []")
      case True
      from store_inv_delete [OF assms(1)] show ?thesis
        using changed by (simp add: cleanupEntry_def e True)
    next
      case False
      note f = room_inv_filter [OF assms(2) [unfolded e] False]
      have a: "room_inv (roomId, r\<lparr>players := filter isConnected (players r),
                                   updatedAt := now roomId\<rparr>)"
        by (rule f) simp_all
      have b: "room_inv (roomId, r\<lparr>players := filter isConnected (players r),
                                   updatedAt := now roomId, hostId := h\<rparr>)" for h
        by (rule f) simp_all
      from store_inv_update [OF assms(1) a] store_inv_update [OF assms(1) b] show ?thesis
        using changed False
        by (simp add: cleanupEntry_def e Let_def)
    qed
  qed
qed

lemma cleanup_fold_inv:
  assumes "store_inv s" "list_all room_inv es"
  shows "store_inv (foldl (cleanupEntry now) s es)"
  using assms by (induction es arbitrary: s) (simp_all add: cleanupEntry_inv)

lemma cleanupDisconnectedUsers_inv:
  assumes "store_inv s"
  shows "store_inv (cleanupDisconnectedUsers now s)"
  unfolding cleanupDisconnectedUsers_def
  using assms cleanup_fold_inv [OF assms, of "rooms s" now] by (simp add: store_inv_def)

lemma step_inv:
  assumes "store_inv s" "step s c = Some s'"
  shows "store_inv s'"
proof (cases c)
  case (CreateRoom host m draws roomId now)
  with assms(2) obtain r where "createRoom s host m draws roomId now = Some (r, s')"
    by auto
  from createRoom_inv [OF assms(1) this] show ?thesis .
next
  case (JoinRoom roomCode u now)
  with assms joinRoom_inv [OF assms(1), of roomCode u now] show ?thesis by auto
next
  case (LeaveRoom roomCode userId now)
  with assms leaveRoom_inv [OF assms(1), of roomCode userId now] show ?thesis by auto
next
  case (StartGame roomCode userId scaled now)
  with assms startGame_inv [OF assms(1), of roomCode userId scaled now] show ?thesis by auto
next
  case (UpdateUserConnection roomId userId c sock now)
  with assms updateUserConnection_inv [OF assms(1), of roomId userId c sock now]
  show ?thesis by auto
next
  case (GetGameState roomId)
  with assms show ?thesis by auto
next
  case (CleanupDisconnectedUsers now)
  with assms cleanupDisconnectedUsers_inv [OF assms(1), of now] show ?thesis by auto
next
  case ResetRoomStorageForTesting
  with assms(2) show ?thesis by (auto simp: resetRoomStorageForTesting_def store_inv_def)
qed

lemma run_inv:
  assumes "store_inv s" "run s cs = Some s'"
  shows "store_inv s'"
  using assms
proof (induction cs arbitrary: s)
  case Nil
  then show ?case by simp
next
  case (Cons c cs)
  from Cons.prems(2) obtain s1 where s1: "step s c = Some s1" "run s1 cs = Some s'"
    by (auto split: option.splits)
  from Cons.IH [OF step_inv [OF Cons.prems(1) s1(1)] s1(2)] show ?case .
qed

lemma reachable_inv:
  assumes "run emptyStore cs = Some s"
  shows "store_inv s"
  using run_inv [OF store_inv_empty assms] .

subsection \<open>Membership bounds and the removal of a room\<close>

lemma sole_member:
  assumes "filter (\<lambda>p. user_id p \<noteq> userId) ps = []" "distinct (map user_id ps)" "ps \<noteq> []"
  shows "\<exists>p. ps = [p] \<and> user_id p = userId"
proof (cases ps)
  case Nil
  with assms(3) show ?thesis by simp
next
  case (Cons p qs)
  from assms(1) have all: "\<forall>q\<in>set ps. user_id q = userId"
    by (auto simp: filter_empty_conv)
  have "qs = []"
  proof (rule ccontr)
    assume "qs \<noteq> []"
    then obtain q where "q \<in> set qs" by (cases qs) auto
    with all Cons have "user_id q = user_id p" "user_id q \<in> set (map user_id qs)" by auto
    with assms(2) Cons show False by auto
  qed
  with all Cons show ?thesis by simp
qed

lemma getRoomById_update:
  "getRoomById (s\<lparr>rooms := AList.update k v (rooms s)\<rparr>) k' = (if k' = k then Some v else getRoomById s k')"
  by (simp add: getRoomById_def update_conv')

lemma getRoomById_delete:
  "getRoomById (s\<lparr>rooms := AList.delete k (rooms s), roomsByCode := m\<rparr>) k'
   = (if k' = k then None else getRoomById s k')"
  by (simp add: getRoomById_def delete_conv')

lemma leaveRoom_removal:
  assumes inv: "store_inv s" and r: "getRoomByCode s roomCode = Some r"
  shows "(getRoomById (snd (leaveRoom s roomCode userId now)) (room_id r) = None
            \<longleftrightarrow> (\<exists>p. players r = [p] \<and> user_id p = userId))
       \<and> (getRoomById (snd (leaveRoom s roomCode userId now)) (room_id r) = None
            \<longrightarrow> fst (leaveRoom s roomCode userId now) = None
              \<and> getRoomByCode (snd (leaveRoom s roomCode userId now)) roomCode = None
              \<and> getRoomByCode (snd (leaveRoom s roomCode userId now)) (room_code r) = None)
       \<and> (k \<noteq> room_id r \<longrightarrow>
             getRoomById (snd (leaveRoom s roomCode userId now)) k = getRoomById s k)"
proof -
  from getRoomByCode_inv [OF inv r] have ri: "room_inv (room_id r, r)"
    and stored: "map_of (rooms s) (room_id r) = Some r" by simp_all
  from ri have ne: "players r \<noteq> []" and dist: "distinct (map user_id (players r))"
    by (simp_all add: room_inv_def)
  from getRoomByCode_stored [OF r] obtain key where key: "roomsByCode s roomCode = Some key"
    "map_of (rooms s) key = Some r" by blast
  from store_inv_lookup [OF inv key(2)] have key_id: "key = room_id r"
    by (simp add: room_inv_def)
  show ?thesis
  proof (cases "userId \<in> set (map user_id (players r))")
    case False
    then have "\<not> (\<exists>p. players r = [p] \<and> user_id p = userId)" by auto
    with False stored show ?thesis
      by (simp add: leaveRoom_nonmember [OF r False] getRoomById_def)
  next
    case True
    show ?thesis
    proof (cases "filter (\<lambda>p. user_id p \<noteq> userId) (players r) = []")
      case empty: True
      from sole_member [OF empty dist ne] have sole: "\<exists>p. players r = [p] \<and> user_id p = userId" .
      have s': "leaveRoom s roomCode userId now
            = (None, s\<lparr>rooms := AList.delete (room_id r) (rooms s),
                         roomsByCode := (roomsByCode s)(room_code r := None)\<rparr>)"
        by (simp add: leaveRoom_member [OF r True] empty)
      have "getRoomByCode (s\<lparr>rooms := AList.delete (room_id r) (rooms s),
                         roomsByCode := (roomsByCode s)(room_code r := None)\<rparr>) roomCode = None"
        using key(1) key_id by (simp add: getRoomByCode_def delete_conv')
      moreover have "getRoomByCode (s\<lparr>rooms := AList.delete (room_id r) (rooms s),
                         roomsByCode := (roomsByCode s)(room_code r := None)\<rparr>) (room_code r) = None"
        by (simp add: getRoomByCode_def)
      ultimately show ?thesis using sole by (simp add: s' getRoomById_delete)
    next
      case nonempty: False
      then have "\<not> (\<exists>p. players r = [p] \<and> user_id p = userId)" by auto
      then show ?thesis
        by (simp add: leaveRoom_member [OF r True] nonempty Let_def getRoomById_update)
    qed
  qed
qed

lemma joinRoom_keeps_rooms:
  assumes "getRoomById s k \<noteq> None"
  shows "getRoomById (snd (joinRoom s roomCode u now)) k \<noteq> None"
proof -
  obtain res s' where j: "joinRoom s roomCode u now = (res, s')"
    by (cases "joinRoom s roomCode u now")
  from joinRoom_cases [OF j] assms show ?thesis
    by (auto simp: j getRoomById_update)
qed

lemma createRoom_keeps_rooms:
  assumes "createRoom s host m draws roomId now = Some (r, s')"
  shows "getRoomById s' roomId = Some r \<and> (k \<noteq> roomId \<longrightarrow> getRoomById s' k = getRoomById s k)"
  using assms
  by (auto simp: createRoom_def Let_def getRoomById_def update_conv' split: option.splits)

lemma room_inv_bounds:
  assumes "store_inv s" "(roomId, r) \<in> set (rooms s)"
  shows "1 \<le> length (players r) \<and> (1 \<le> maxPlayers r \<longrightarrow> int (length (players r)) \<le> maxPlayers r)"
proof -
  from assms have "room_inv (roomId, r)" by (auto simp: store_inv_def list_all_iff)
  then show ?thesis by (cases "players r") (auto simp: room_inv_def)
qed

text \<open>
  C4, as the code has it. After any sequence of calls from the empty store, every stored
  room has at least one member, and at most \<open>maxPlayers\<close> members when \<open>maxPlayers\<close> is
  an integer of at least 1 (\<open>createRoom\<close> does not check its argument). \<open>leaveRoom\<close> on a room found
  by its code removes the room exactly when the leaving user is its only member; then it
  returns nothing and the room is found neither by the code used nor by its own code.
  \<open>leaveRoom\<close> leaves every other room in place, \<open>joinRoom\<close> removes no room, and
  \<open>createRoom\<close> stores the new room and leaves the rooms under other ids as they are.
\<close>

theorem members_between_one_and_capacity:
  assumes "run emptyStore cs = Some s"
  shows "(\<forall>(roomId, r) \<in> set (rooms s).
            1 \<le> length (players r)
            \<and> (1 \<le> maxPlayers r \<longrightarrow> int (length (players r)) \<le> maxPlayers r))
       \<and> (getRoomByCode s roomCode = Some r \<longrightarrow>
            (getRoomById (snd (leaveRoom s roomCode userId now)) (room_id r) = None
               \<longleftrightarrow> (\<exists>p. players r = [p] \<and> user_id p = userId))
            \<and> (getRoomById (snd (leaveRoom s roomCode userId now)) (room_id r) = None
               \<longrightarrow> fst (leaveRoom s roomCode userId now) = None
                 \<and> getRoomByCode (snd (leaveRoom s roomCode userId now)) roomCode = None
                 \<and> getRoomByCode (snd (leaveRoom s roomCode userId now)) (room_code r) = None)
            \<and> (k \<noteq> room_id r \<longrightarrow>
                 getRoomById (snd (leaveRoom s roomCode userId now)) k = getRoomById s k))
       \<and> (getRoomByCode s roomCode = None \<longrightarrow> snd (leaveRoom s roomCode userId now) = s)
       \<and> (getRoomById s k \<noteq> None \<longrightarrow> getRoomById (snd (joinRoom s roomCode u now)) k \<noteq> None)
       \<and> (createRoom s host m draws roomId' now = Some (r', s') \<longrightarrow>
            getRoomById s' roomId' = Some r'
            \<and> (k \<noteq> roomId' \<longrightarrow> getRoomById s' k = getRoomById s k))"
proof -
  note inv = reachable_inv [OF assms]
  have a: "\<forall>(roomId, r) \<in> set (rooms s).
            1 \<le> length (players r)
            \<and> (1 \<le> maxPlayers r \<longrightarrow> int (length (players r)) \<le> maxPlayers r)"
    using room_inv_bounds [OF inv] by blast
  show ?thesis
    using a leaveRoom_removal [OF inv, of roomCode r userId now k]
      leaveRoom_absent [of s roomCode userId now]
      joinRoom_keeps_rooms [of s k roomCode u now]
      createRoom_keeps_rooms [of s host m draws roomId' now r' s' k]
    by (intro conjI impI) simp_all
qed

text \<open>
  C4 as stated fails: \<open>createRoom\<close> with capacity 0 stores a room with one member.
\<close>

theorem capacity_zero_counterexample:
  "run emptyStore (calls_created 0) = Some (store_of (room_created\<lparr>maxPlayers := 0\<rparr>))
   \<and> rooms (store_of (room_created\<lparr>maxPlayers := 0\<rparr>)) = [(''r1'', room_created\<lparr>maxPlayers := 0\<rparr>)]
   \<and> length (players (room_created\<lparr>maxPlayers := 0\<rparr>)) = 1
   \<and> maxPlayers (room_created\<lparr>maxPlayers := 0\<rparr>) = 0
   \<and> \<not> int (length (players (room_created\<lparr>maxPlayers := 0\<rparr>)))
         \<le> maxPlayers (room_created\<lparr>maxPlayers := 0\<rparr>)"
  by (simp add: run_created) (simp add: store_of_def room_created_def)

theorem members_between_one_and_capacity_witness:
  "run emptyStore (calls_created 4) = Some (store_of room_created)
   \<and> (''r1'', room_created) \<in> set (rooms (store_of room_created))
   \<and> 1 \<le> maxPlayers room_created
   \<and> 1 \<le> length (players room_created)
   \<and> int (length (players room_created)) \<le> maxPlayers room_created
   \<and> getRoomByCode (store_of room_created) ''AAAAAA'' = Some room_created
   \<and> (\<exists>p. players room_created = [p] \<and> user_id p = ''h'')
   \<and> getRoomById (snd (leaveRoom (store_of room_created) ''AAAAAA'' ''h'' 5))
         (room_id room_created) = None
   \<and> (fst (leaveRoom (store_of room_created) ''AAAAAA'' ''h'' 5) = None
      \<and> getRoomByCode (snd (leaveRoom (store_of room_created) ''AAAAAA'' ''h'' 5)) ''AAAAAA''
          = None
      \<and> getRoomByCode (snd (leaveRoom (store_of room_created) ''AAAAAA'' ''h'' 5))
            (room_code room_created) = None)
   \<and> getRoomByCode (store_of room_created) ''BBBBBB'' = None
   \<and> snd (leaveRoom (store_of room_created) ''BBBBBB'' ''h'' 5) = store_of room_created
   \<and> getRoomById (store_of room_created) (room_id room_created) \<noteq> None
   \<and> getRoomById (snd (joinRoom (store_of room_created) ''AAAAAA'' user_p1 5))
         (room_id room_created) \<noteq> None"
proof -
  have run: "run emptyStore (calls_created 4) = Some (store_of room_created)"
    using run_created [of 4] by (simp add: room_created_4)
  have entry: "(''r1'', room_created) \<in> set (rooms (store_of room_created))"
    by (simp add: store_of_def)
  have cap: "1 \<le> maxPlayers room_created" by (simp add: room_created_def)
  have sole: "\<exists>p. players room_created = [p] \<and> user_id p = ''h''"
    by (simp add: room_created_def user_h_def)
  have found: "getRoomByCode (store_of room_created) ''AAAAAA'' = Some room_created"
    by (rule getRoomByCode_store_of)
  have absent: "getRoomByCode (store_of room_created) ''BBBBBB'' = None"
    by (simp add: getRoomByCode_def store_of_def)
  have present: "getRoomById (store_of room_created) (room_id room_created) \<noteq> None"
    by (simp add: getRoomById_def store_of_def room_created_def)
  note a = members_between_one_and_capacity [OF run, where roomCode = "''AAAAAA''"
      and r = room_created and userId = "''h''" and now = 5 and k = "room_id room_created"
      and u = user_p1]
  note b = members_between_one_and_capacity [OF run, where roomCode = "''BBBBBB''"
      and userId = "''h''" and now = 5]
  have bounds: "1 \<le> length (players room_created)
       \<and> (1 \<le> maxPlayers room_created
            \<longrightarrow> int (length (players room_created)) \<le> maxPlayers room_created)"
    using bspec [OF a [THEN conjunct1] entry] by simp
  note lower = bounds [THEN conjunct1]
  note upper = bounds [THEN conjunct2, THEN mp, OF cap]
  note leave = a [THEN conjunct2, THEN conjunct1, THEN mp, OF found]
  note gone = leave [THEN conjunct1, THEN iffD2, OF sole]
  note unresolvable = leave [THEN conjunct2, THEN conjunct1, THEN mp, OF gone]
  note noop = b [THEN conjunct2, THEN conjunct2, THEN conjunct1, THEN mp, OF absent]
  note kept = a [THEN conjunct2, THEN conjunct2, THEN conjunct2, THEN conjunct1, THEN mp,
      OF present]
  show ?thesis
    by (intro conjI run entry cap lower upper found sole gone unresolvable absent noop
        present kept)
qed

subsection \<open>Joining a room\<close>

lemma unique_id_after_update:
  assumes d: "distinct (map f xs)" and i: "i < length xs" "f (xs ! i) = a"
    and p: "p \<in> set (xs[i := x])" "f p = a"
  shows "p = x"
proof -
  from p(1) obtain j where j: "j < length xs" "(xs[i := x]) ! j = p"
    by (auto simp: in_set_conv_nth)
  show ?thesis
  proof (cases "j = i")
    case True
    with j show ?thesis by simp
  next
    case False
    with j have "xs ! j = p" by simp
    with p(2) i(2) have "map f xs ! j = map f xs ! i" using j(1) i(1) by simp
    moreover have "j < length (map f xs)" "i < length (map f xs)" using j(1) i(1) by simp_all
    ultimately have "j = i" using d nth_eq_iff_index_eq [of "map f xs" j i] by blast
    with False show ?thesis by simp
  qed
qed

lemma joined_member_connected:
  assumes d: "distinct (map user_id (players r))"
  shows "(\<exists>p\<in>set (players
            ((case findIndex (\<lambda>p. user_id p = user_id u) (players r) of
                Some i \<Rightarrow> r\<lparr>players := (players r)
                       [i := (spread_user (players r ! i) u)\<lparr>isConnected := True\<rparr>]\<rparr>
              | None \<Rightarrow> r\<lparr>players := players r @ [u\<lparr>isConnected := True\<rparr>]\<rparr>)
             \<lparr>updatedAt := now\<rparr>)). user_id p = user_id u)
       \<and> (\<forall>p\<in>set (players
            ((case findIndex (\<lambda>p. user_id p = user_id u) (players r) of
                Some i \<Rightarrow> r\<lparr>players := (players r)
                       [i := (spread_user (players r ! i) u)\<lparr>isConnected := True\<rparr>]\<rparr>
              | None \<Rightarrow> r\<lparr>players := players r @ [u\<lparr>isConnected := True\<rparr>]\<rparr>)
             \<lparr>updatedAt := now\<rparr>)). user_id p = user_id u \<longrightarrow> isConnected p)"
proof (cases "findIndex (\<lambda>p. user_id p = user_id u) (players r)")
  case None
  then have "\<forall>p\<in>set (players r). user_id p \<noteq> user_id u"
    by (simp add: findIndex_None_iff)
  with None show ?thesis by auto
next
  case (Some i)
  from findIndex_Some [OF Some] have i: "i < length (players r)"
    "user_id (players r ! i) = user_id u" by auto
  define x where "x = (spread_user (players r ! i) u)\<lparr>isConnected := True\<rparr>"
  have x: "user_id x = user_id u" "isConnected x" by (simp_all add: x_def spread_user_def)
  have "x \<in> set ((players r)[i := x])" using i(1) by (simp add: set_update_memI)
  moreover have "\<forall>p\<in>set ((players r)[i := x]). user_id p = user_id u \<longrightarrow> isConnected p"
    using unique_id_after_update [OF d i] x(2) by blast
  ultimately show ?thesis using x(1) by (auto simp: Some x_def [symmetric])
qed

lemma joinRoom_stored:
  assumes inv: "store_inv s" and j: "joinRoom s roomCode u now = (Some r', s')"
  shows "s' = s\<lparr>rooms := AList.update (room_id r') r' (rooms s)\<rparr>
       \<and> getRoomById s' (room_id r') = Some r'
       \<and> getRoomByCode s' roomCode = Some r'
       \<and> (\<exists>r. getRoomByCode s roomCode = Some r
              \<and> players r'
                  = (case findIndex (\<lambda>p. user_id p = user_id u) (players r) of
                       None \<Rightarrow> players r @ [u\<lparr>isConnected := True\<rparr>]
                     | Some i \<Rightarrow> (players r)
                         [i := (spread_user (players r ! i) u)\<lparr>isConnected := True\<rparr>]))"
proof -
  from joinRoom_cases [OF j] obtain r where r: "getRoomByCode s roomCode = Some r"
    and r': "r' = (case findIndex (\<lambda>p. user_id p = user_id u) (players r) of
                        Some i \<Rightarrow> r\<lparr>players := (players r)
                               [i := (spread_user (players r ! i) u)\<lparr>isConnected := True\<rparr>]\<rparr>
                      | None \<Rightarrow> r\<lparr>players := players r @ [u\<lparr>isConnected := True\<rparr>]\<rparr>)
                    \<lparr>updatedAt := now\<rparr>"
    and id: "room_id r' = room_id r"
    and s': "s' = s\<lparr>rooms := AList.update (room_id r) r' (rooms s)\<rparr>"
    by auto
  from getRoomByCode_stored [OF r] obtain key where key: "roomsByCode s roomCode = Some key"
    "map_of (rooms s) key = Some r" by blast
  from store_inv_lookup [OF inv key(2)] have key_id: "key = room_id r"
    by (simp add: room_inv_def)
  from r have valid: "isValidRoomCode roomCode" "key \<noteq> []"
    using key(1) by (auto simp: getRoomByCode_def split: if_splits)
  have a: "s' = s\<lparr>rooms := AList.update (room_id r') r' (rooms s)\<rparr>"
    using s' id by simp
  have b: "getRoomById s' (room_id r') = Some r'"
    by (simp add: a getRoomById_update)
  have c: "getRoomByCode s' roomCode = Some r'"
    using valid key(1) key_id id by (simp add: getRoomByCode_def a update_conv')
  have d: "players r' = (case findIndex (\<lambda>p. user_id p = user_id u) (players r) of
                       None \<Rightarrow> players r @ [u\<lparr>isConnected := True\<rparr>]
                     | Some i \<Rightarrow> (players r)
                         [i := (spread_user (players r ! i) u)\<lparr>isConnected := True\<rparr>])"
    by (simp add: r' split: option.splits)
  from a b c d r show ?thesis by blast
qed

text \<open>
  C9. On a store reached by calls from the empty store, after \<open>joinRoom\<close> returns a
  room, that room has a member with the id of the joining user, and every member with that
  id is connected, whatever \<open>isConnected\<close> the caller passed: on the path that appends
  the user and on the path that overwrites the existing member. The room returned is the
  room that the new store holds under the room's id and finds by the code, so the stored
  member is connected too.
\<close>

theorem joinRoom_member_connected:
  assumes "run emptyStore cs = Some s" "joinRoom s roomCode u now = (Some r', s')"
  shows "(\<exists>p\<in>set (players r'). user_id p = user_id u)
       \<and> (\<forall>p\<in>set (players r'). user_id p = user_id u \<longrightarrow> isConnected p)
       \<and> s' = s\<lparr>rooms := AList.update (room_id r') r' (rooms s)\<rparr>
       \<and> getRoomById s' (room_id r') = Some r'
       \<and> getRoomByCode s' roomCode = Some r'
       \<and> (\<exists>r. getRoomByCode s roomCode = Some r
              \<and> players r'
                  = (case findIndex (\<lambda>p. user_id p = user_id u) (players r) of
                       None \<Rightarrow> players r @ [u\<lparr>isConnected := True\<rparr>]
                     | Some i \<Rightarrow> (players r)
                         [i := (spread_user (players r ! i) u)\<lparr>isConnected := True\<rparr>]))"
proof -
  note inv = reachable_inv [OF assms(1)]
  from joinRoom_cases [OF assms(2)] obtain r where r: "getRoomByCode s roomCode = Some r"
    and r': "r' = (case findIndex (\<lambda>p. user_id p = user_id u) (players r) of
                        Some i \<Rightarrow> r\<lparr>players := (players r)
                               [i := (spread_user (players r ! i) u)\<lparr>isConnected := True\<rparr>]\<rparr>
                      | None \<Rightarrow> r\<lparr>players := players r @ [u\<lparr>isConnected := True\<rparr>]\<rparr>)
                    \<lparr>updatedAt := now\<rparr>"
    by auto
  from getRoomByCode_inv [OF inv r] have "distinct (map user_id (players r))"
    by (simp add: room_inv_def)
  from joined_member_connected [OF this, where u = u and now = now]
  have members: "(\<exists>p\<in>set (players r'). user_id p = user_id u)
       \<and> (\<forall>p\<in>set (players r'). user_id p = user_id u \<longrightarrow> isConnected p)"
    unfolding r' .
  note stored = joinRoom_stored [OF inv assms(2)]
  show ?thesis
    by (intro conjI members [THEN conjunct1] members [THEN conjunct2]
        stored [THEN conjunct1] stored [THEN conjunct2, THEN conjunct1]
        stored [THEN conjunct2, THEN conjunct2, THEN conjunct1]
        stored [THEN conjunct2, THEN conjunct2, THEN conjunct2])
qed

lemma rejoin_joined:
  "joinRoom (store_of room_joined) ''AAAAAA'' (user_p1\<lparr>username := ''P1 again''\<rparr>) 2500
   = (Some (room_joined\<lparr>players := [user_h, user_p1\<lparr>username := ''P1 again'', isConnected := True\<rparr>],
                          updatedAt := 2500\<rparr>),
      store_of (room_joined\<lparr>players := [user_h, user_p1\<lparr>username := ''P1 again'', isConnected := True\<rparr>],
                          updatedAt := 2500\<rparr>))"
  by (simp add: joinRoom_def concrete_defs spread_user_def spread_optional_def)

theorem joinRoom_member_connected_witness:
  "run emptyStore (calls_created 4) = Some (store_of room_created)
   \<and> \<not> isConnected user_p1
   \<and> joinRoom (store_of room_created) ''AAAAAA'' user_p1 2000
       = (Some room_joined, store_of room_joined)
   \<and> user_p1\<lparr>isConnected := True\<rparr> \<in> set (players room_joined)
   \<and> user_id (user_p1\<lparr>isConnected := True\<rparr>) = user_id user_p1
   \<and> isConnected (user_p1\<lparr>isConnected := True\<rparr>)
   \<and> getRoomById (store_of room_joined) (room_id room_joined) = Some room_joined
   \<and> getRoomByCode (store_of room_joined) ''AAAAAA'' = Some room_joined
   \<and> run emptyStore calls_joined = Some (store_of room_joined)
   \<and> \<not> isConnected (user_p1\<lparr>username := ''P1 again''\<rparr>)
   \<and> joinRoom (store_of room_joined) ''AAAAAA'' (user_p1\<lparr>username := ''P1 again''\<rparr>) 2500
       = (Some (room_joined\<lparr>players := [user_h, user_p1\<lparr>username := ''P1 again'',
                                                          isConnected := True\<rparr>],
                              updatedAt := 2500\<rparr>),
          store_of (room_joined\<lparr>players := [user_h, user_p1\<lparr>username := ''P1 again'',
                                                            isConnected := True\<rparr>],
                                updatedAt := 2500\<rparr>))
   \<and> user_p1\<lparr>username := ''P1 again'', isConnected := True\<rparr>
       \<in> set (players (room_joined\<lparr>players := [user_h, user_p1\<lparr>username := ''P1 again'',
                                                              isConnected := True\<rparr>],
                                  updatedAt := 2500\<rparr>))
   \<and> isConnected (user_p1\<lparr>username := ''P1 again'', isConnected := True\<rparr>)
   \<and> getRoomById
         (store_of (room_joined\<lparr>players := [user_h, user_p1\<lparr>username := ''P1 again'',
                                                           isConnected := True\<rparr>],
                               updatedAt := 2500\<rparr>))
         (room_id (room_joined\<lparr>players := [user_h, user_p1\<lparr>username := ''P1 again'',
                                                          isConnected := True\<rparr>],
                              updatedAt := 2500\<rparr>))
       = Some (room_joined\<lparr>players := [user_h, user_p1\<lparr>username := ''P1 again'',
                                                         isConnected := True\<rparr>],
                             updatedAt := 2500\<rparr>)
   \<and> getRoomByCode
         (store_of (room_joined\<lparr>players := [user_h, user_p1\<lparr>username := ''P1 again'',
                                                           isConnected := True\<rparr>],
                               updatedAt := 2500\<rparr>)) ''AAAAAA''
       = Some (room_joined\<lparr>players := [user_h, user_p1\<lparr>username := ''P1 again'',
                                                         isConnected := True\<rparr>],
                             updatedAt := 2500\<rparr>)"
proof -
  have run: "run emptyStore (calls_created 4) = Some (store_of room_created)"
    using run_created [of 4] by (simp add: room_created_4)
  have off: "\<not> isConnected user_p1" "\<not> isConnected (user_p1\<lparr>username := ''P1 again''\<rparr>)"
    by (simp_all add: user_p1_def)
  have m: "user_p1\<lparr>isConnected := True\<rparr> \<in> set (players room_joined)"
    by (simp add: room_joined_def)
  have same: "user_id (user_p1\<lparr>isConnected := True\<rparr>) = user_id user_p1" by simp
  note first = joinRoom_member_connected [OF run join_created]
  note on = bspec [OF first [THEN conjunct2, THEN conjunct1] m, THEN mp, OF same]
  note byId = first [THEN conjunct2, THEN conjunct2, THEN conjunct2, THEN conjunct1]
  note byCode = first [THEN conjunct2, THEN conjunct2, THEN conjunct2, THEN conjunct2,
      THEN conjunct1]
  have same2: "user_id (user_p1\<lparr>username := ''P1 again'', isConnected := True\<rparr>)
               = user_id (user_p1\<lparr>username := ''P1 again''\<rparr>)" by simp
  note again = joinRoom_member_connected [OF run_joined rejoin_joined]
  have m2: "user_p1\<lparr>username := ''P1 again'', isConnected := True\<rparr>
       \<in> set (players (room_joined\<lparr>players := [user_h, user_p1\<lparr>username := ''P1 again'',
                                                              isConnected := True\<rparr>],
                                  updatedAt := 2500\<rparr>))" by simp
  note on2 = bspec [OF again [THEN conjunct2, THEN conjunct1] m2, THEN mp, OF same2]
  note byId2 = again [THEN conjunct2, THEN conjunct2, THEN conjunct2, THEN conjunct1]
  note byCode2 = again [THEN conjunct2, THEN conjunct2, THEN conjunct2, THEN conjunct2,
      THEN conjunct1]
  show ?thesis
    by (intro conjI run off join_created m same on byId byCode run_joined rejoin_joined m2
        on2 byId2 byCode2)
qed

text \<open>
  C3, as the code has it. The capacity check and the status check come before the search
  for the user, so a join by a user who is already a member returns a room exactly when
  the room is not full and its status is \<open>WAITING\<close>. Then the first member with that id
  is overwritten in place by the spread of the old member and the new user with
  \<open>isConnected\<close> true; the number of members and their ids are the same as before, and
  the room returned is the room stored under the room's id, the rest of the store being as
  it was. When the room is full or not \<open>WAITING\<close> the call returns nothing and the store
  is unchanged.
\<close>

theorem joinRoom_existing_member:
  assumes "getRoomByCode s roomCode = Some r"
    and "user_id u \<in> set (map user_id (players r))"
  shows "(fst (joinRoom s roomCode u now) \<noteq> None
            \<longleftrightarrow> int (length (players r)) < maxPlayers r \<and> status r = WAITING)
       \<and> (maxPlayers r \<le> int (length (players r)) \<or> status r \<noteq> WAITING \<longrightarrow>
            joinRoom s roomCode u now = (None, s))
       \<and> (int (length (players r)) < maxPlayers r \<and> status r = WAITING \<longrightarrow>
            (\<exists>i<length (players r).
               findIndex (\<lambda>p. user_id p = user_id u) (players r) = Some i
               \<and> user_id (players r ! i) = user_id u
               \<and> fst (joinRoom s roomCode u now)
                   = Some (r\<lparr>players := (players r)
                              [i := \<lparr>user_id = user_id u, username = username u,
                                     avatar = spread_optional (avatar (players r ! i)) (avatar u),
                                     isConnected = True,
                                     socketId = spread_optional (socketId (players r ! i))
                                                  (socketId u)\<rparr>],
                            updatedAt := now\<rparr>))
            \<and> length (players (the (fst (joinRoom s roomCode u now)))) = length (players r)
            \<and> map user_id (players (the (fst (joinRoom s roomCode u now))))
                = map user_id (players r)
            \<and> snd (joinRoom s roomCode u now)
                = s\<lparr>rooms := AList.update (room_id r) (the (fst (joinRoom s roomCode u now)))
                                (rooms s)\<rparr>
            \<and> getRoomById (snd (joinRoom s roomCode u now)) (room_id r)
                = fst (joinRoom s roomCode u now))"
proof -
  from assms(2) obtain i where i: "findIndex (\<lambda>p. user_id p = user_id u) (players r) = Some i"
    using findIndex_Some_iff [of "\<lambda>p. user_id p = user_id u" "players r"] by auto
  from findIndex_Some [OF i] have il: "i < length (players r)"
    "user_id (players r ! i) = user_id u" by auto
  show ?thesis
  proof (cases "int (length (players r)) < maxPlayers r \<and> status r = WAITING")
    case False
    then have "joinRoom s roomCode u now = (None, s)"
      using assms(1) by (auto simp: joinRoom_def)
    with False show ?thesis by auto
  next
    case True
    then have c: "(maxPlayers r \<le> int (length (players r))) = False"
      "(status r \<noteq> WAITING) = False" by auto
    have su: "(spread_user (players r ! i) u)\<lparr>isConnected := True\<rparr>
          = \<lparr>user_id = user_id u, username = username u,
             avatar = spread_optional (avatar (players r ! i)) (avatar u),
             isConnected = True,
             socketId = spread_optional (socketId (players r ! i)) (socketId u)\<rparr>"
      by (simp add: spread_user_def)
    define x where "x = \<lparr>user_id = user_id u, username = username u,
                                     avatar = spread_optional (avatar (players r ! i)) (avatar u),
                                     isConnected = True,
                                     socketId = spread_optional (socketId (players r ! i))
                                                  (socketId u)\<rparr>"
    have whole: "joinRoom s roomCode u now
          = (Some (r\<lparr>players := (players r)[i := x], updatedAt := now\<rparr>),
             s\<lparr>rooms := AList.update
                        (room_id (r\<lparr>players := (players r)[i := x], updatedAt := now\<rparr>))
                        (r\<lparr>players := (players r)[i := x], updatedAt := now\<rparr>) (rooms s)\<rparr>)"
      unfolding joinRoom_def x_def
      by (simp only: assms(1) option.case c if_False Let_def i su)
    have same_id: "room_id (r\<lparr>players := (players r)[i := x], updatedAt := now\<rparr>) = room_id r"
      by simp
    have pair: "joinRoom s roomCode u now
          = (Some (r\<lparr>players := (players r)[i := x], updatedAt := now\<rparr>),
             s\<lparr>rooms := AList.update (room_id r)
                        (r\<lparr>players := (players r)[i := x], updatedAt := now\<rparr>) (rooms s)\<rparr>)"
      using whole unfolding same_id .
    have stored: "snd (joinRoom s roomCode u now)
                = s\<lparr>rooms := AList.update (room_id r) (the (fst (joinRoom s roomCode u now)))
                                (rooms s)\<rparr>"
      "getRoomById (snd (joinRoom s roomCode u now)) (room_id r)
                = fst (joinRoom s roomCode u now)"
      by (simp_all add: pair getRoomById_update)
    have j: "fst (joinRoom s roomCode u now)
          = Some (r\<lparr>players := (players r)
                              [i := \<lparr>user_id = user_id u, username = username u,
                                     avatar = spread_optional (avatar (players r ! i)) (avatar u),
                                     isConnected = True,
                                     socketId = spread_optional (socketId (players r ! i))
                                                  (socketId u)\<rparr>],
                            updatedAt := now\<rparr>)"
      by (simp add: pair x_def)
    have ids: "map user_id ((players r)
                              [i := \<lparr>user_id = user_id u, username = username u,
                                     avatar = spread_optional (avatar (players r ! i)) (avatar u),
                                     isConnected = True,
                                     socketId = spread_optional (socketId (players r ! i))
                                                  (socketId u)\<rparr>]) = map user_id (players r)"
      using il by (intro ids_list_update) simp_all
    have ex: "\<exists>i<length (players r).
               findIndex (\<lambda>p. user_id p = user_id u) (players r) = Some i
               \<and> user_id (players r ! i) = user_id u
               \<and> fst (joinRoom s roomCode u now)
                   = Some (r\<lparr>players := (players r)
                              [i := \<lparr>user_id = user_id u, username = username u,
                                     avatar = spread_optional (avatar (players r ! i)) (avatar u),
                                     isConnected = True,
                                     socketId = spread_optional (socketId (players r ! i))
                                                  (socketId u)\<rparr>],
                            updatedAt := now\<rparr>)"
      using il i j by blast
    have len: "length (players (the (fst (joinRoom s roomCode u now)))) = length (players r)"
      "map user_id (players (the (fst (joinRoom s roomCode u now)))) = map user_id (players r)"
      using ids by (simp_all add: j)
    have ok: "fst (joinRoom s roomCode u now) \<noteq> None" by (simp add: j)
    from True c ok ex len stored show ?thesis by blast
  qed
qed

theorem joinRoom_existing_member_witness:
  "getRoomByCode (store_of room_joined) ''AAAAAA'' = Some room_joined
   \<and> user_id (user_p1\<lparr>username := ''P1 again''\<rparr>) \<in> set (map user_id (players room_joined))
   \<and> int (length (players room_joined)) < maxPlayers room_joined
   \<and> status room_joined = WAITING
   \<and> fst (joinRoom (store_of room_joined) ''AAAAAA'' (user_p1\<lparr>username := ''P1 again''\<rparr>) 2500)
       \<noteq> None
   \<and> length (players (the (fst (joinRoom (store_of room_joined) ''AAAAAA''
                                   (user_p1\<lparr>username := ''P1 again''\<rparr>) 2500))))
       = length (players room_joined)
   \<and> players (the (fst (joinRoom (store_of room_joined) ''AAAAAA''
                                   (user_p1\<lparr>username := ''P1 again''\<rparr>) 2500)))
       = [user_h, user_p1\<lparr>username := ''P1 again'', isConnected := True\<rparr>]
   \<and> snd (joinRoom (store_of room_joined) ''AAAAAA'' (user_p1\<lparr>username := ''P1 again''\<rparr>) 2500)
       = (store_of room_joined)
           \<lparr>rooms := AList.update (room_id room_joined)
                        (the (fst (joinRoom (store_of room_joined) ''AAAAAA''
                                     (user_p1\<lparr>username := ''P1 again''\<rparr>) 2500)))
                        (rooms (store_of room_joined))\<rparr>
   \<and> getRoomById
         (snd (joinRoom (store_of room_joined) ''AAAAAA'' (user_p1\<lparr>username := ''P1 again''\<rparr>)
                 2500))
         (room_id room_joined)
       = fst (joinRoom (store_of room_joined) ''AAAAAA'' (user_p1\<lparr>username := ''P1 again''\<rparr>)
                2500)
   \<and> getRoomByCode (store_of room_started) ''AAAAAA'' = Some room_started
   \<and> user_id user_p1 \<in> set (map user_id (players room_started))
   \<and> status room_started \<noteq> WAITING
   \<and> joinRoom (store_of room_started) ''AAAAAA'' user_p1 4000 = (None, store_of room_started)"
proof -
  have found: "getRoomByCode (store_of room_joined) ''AAAAAA'' = Some room_joined"
    by (rule getRoomByCode_store_of)
  have member: "user_id (user_p1\<lparr>username := ''P1 again''\<rparr>)
                \<in> set (map user_id (players room_joined))"
    by (simp add: room_joined_def)
  have ok: "int (length (players room_joined)) < maxPlayers room_joined \<and> status room_joined = WAITING"
    by (simp add: room_joined_def room_created_def)
  note t = joinRoom_existing_member [OF found member, where now = 2500]
  note succeeds = t [THEN conjunct1, THEN iffD2, OF ok]
  note accepted = t [THEN conjunct2, THEN conjunct2, THEN mp, OF ok]
  note same_length = accepted [THEN conjunct2, THEN conjunct1]
  note store = accepted [THEN conjunct2, THEN conjunct2, THEN conjunct2, THEN conjunct1]
  note stored = accepted [THEN conjunct2, THEN conjunct2, THEN conjunct2, THEN conjunct2]
  have result: "players (the (fst (joinRoom (store_of room_joined) ''AAAAAA''
                                   (user_p1\<lparr>username := ''P1 again''\<rparr>) 2500)))
       = [user_h, user_p1\<lparr>username := ''P1 again'', isConnected := True\<rparr>]"
    by (simp add: rejoin_joined)
  have found': "getRoomByCode (store_of room_started) ''AAAAAA'' = Some room_started"
    by (rule getRoomByCode_store_of)
  have member': "user_id user_p1 \<in> set (map user_id (players room_started))"
    by (simp add: room_started_def room_joined_def)
  have started: "status room_started \<noteq> WAITING" by (simp add: room_started_def)
  note rejected = joinRoom_existing_member [OF found' member', where now = 4000,
      THEN conjunct2, THEN conjunct1, THEN mp, OF disjI2, OF started]
  show ?thesis
    by (intro conjI found member ok [THEN conjunct1] ok [THEN conjunct2] succeeds same_length
        result store stored found' member' started rejected)
qed

text \<open>
  C3 as stated fails: the only member of a full room, and a member of a room whose game
  has started, are both turned away.
\<close>

theorem joinRoom_existing_member_counterexample:
  "run emptyStore (calls_created 1) = Some (store_of (room_created\<lparr>maxPlayers := 1\<rparr>))
   \<and> getRoomByCode (store_of (room_created\<lparr>maxPlayers := 1\<rparr>)) ''AAAAAA''
       = Some (room_created\<lparr>maxPlayers := 1\<rparr>)
   \<and> user_id user_h \<in> set (map user_id (players (room_created\<lparr>maxPlayers := 1\<rparr>)))
   \<and> joinRoom (store_of (room_created\<lparr>maxPlayers := 1\<rparr>)) ''AAAAAA'' user_h 2000
       = (None, store_of (room_created\<lparr>maxPlayers := 1\<rparr>))
   \<and> run emptyStore calls_started = Some (store_of room_started)
   \<and> getRoomByCode (store_of room_started) ''AAAAAA'' = Some room_started
   \<and> user_id user_p1 \<in> set (map user_id (players room_started))
   \<and> joinRoom (store_of room_started) ''AAAAAA'' user_p1 4000 = (None, store_of room_started)"
proof -
  have a: "joinRoom (store_of (room_created\<lparr>maxPlayers := 1\<rparr>)) ''AAAAAA'' user_h 2000
       = (None, store_of (room_created\<lparr>maxPlayers := 1\<rparr>))"
    by (simp add: joinRoom_def concrete_defs)
  have b: "joinRoom (store_of room_started) ''AAAAAA'' user_p1 4000 = (None, store_of room_started)"
    by (simp add: joinRoom_def concrete_defs)
  have c: "user_id user_h \<in> set (map user_id (players (room_created\<lparr>maxPlayers := 1\<rparr>)))"
    "user_id user_p1 \<in> set (map user_id (players room_started))"
    by (simp_all add: concrete_defs)
  show ?thesis
    by (intro conjI run_created getRoomByCode_store_of a b c run_started)
qed

subsection \<open>The status of a room\<close>

lemma getRoomByCode_byId:
  assumes "store_inv s" "getRoomByCode s roomCode = Some r"
  shows "getRoomById s (room_id r) = Some r"
  using getRoomByCode_inv [OF assms] by (simp add: getRoomById_def)

lemma joinRoom_status:
  assumes inv: "store_inv s" and k: "getRoomById s k = Some r"
    and k': "getRoomById (snd (joinRoom s roomCode u now)) k = Some r'"
  shows "status r' = status r"
proof -
  obtain res s' where j: "joinRoom s roomCode u now = (res, s')"
    by (cases "joinRoom s roomCode u now")
  from joinRoom_cases [OF j] show ?thesis
  proof
    assume "res = None \<and> s' = s"
    with j k k' show ?thesis by simp
  next
    assume "\<exists>r0 r2. getRoomByCode s roomCode = Some r0
             \<and> int (length (players r0)) < maxPlayers r0 \<and> status r0 = WAITING
             \<and> r2 = (case findIndex (\<lambda>p. user_id p = user_id u) (players r0) of
                        Some i \<Rightarrow> r0\<lparr>players := (players r0)
                               [i := (spread_user (players r0 ! i) u)\<lparr>isConnected := True\<rparr>]\<rparr>
                      | None \<Rightarrow> r0\<lparr>players := players r0 @ [u\<lparr>isConnected := True\<rparr>]\<rparr>)
                    \<lparr>updatedAt := now\<rparr>
             \<and> res = Some r2 \<and> room_id r2 = room_id r0 \<and> status r2 = status r0
             \<and> s' = s\<lparr>rooms := AList.update (room_id r0) r2 (rooms s)\<rparr>"
    then obtain r0 r2 where r0: "getRoomByCode s roomCode = Some r0"
      and st: "status r2 = status r0"
      and s': "s' = s\<lparr>rooms := AList.update (room_id r0) r2 (rooms s)\<rparr>" by blast
    show ?thesis
    proof (cases "k = room_id r0")
      case True
      with getRoomByCode_byId [OF inv r0] k have "r = r0" by simp
      moreover from k' True have "r' = r2" by (simp add: j s' getRoomById_update)
      ultimately show ?thesis using st by simp
    next
      case False
      with k k' show ?thesis by (simp add: j s' getRoomById_update)
    qed
  qed
qed

lemma leaveRoom_status:
  assumes inv: "store_inv s" and k: "getRoomById s k = Some r"
    and k': "getRoomById (snd (leaveRoom s roomCode userId now)) k = Some r'"
  shows "status r' = status r"
proof (cases "getRoomByCode s roomCode")
  case None
  with k k' show ?thesis by (simp add: leaveRoom_absent)
next
  case (Some r0)
  note byId = getRoomByCode_byId [OF inv Some]
  show ?thesis
  proof (cases "userId \<in> set (map user_id (players r0))")
    case False
    with k k' show ?thesis by (simp add: leaveRoom_nonmember [OF Some False])
  next
    case True
    show ?thesis
    proof (cases "k = room_id r0")
      case same: True
      with byId k have "r = r0" by simp
      with k' same show ?thesis
        by (auto simp: leaveRoom_member [OF Some True] Let_def getRoomById_update
            getRoomById_delete split: if_splits)
    next
      case other: False
      with k k' show ?thesis
        by (simp add: leaveRoom_member [OF Some True] Let_def getRoomById_update
            getRoomById_delete split: if_splits)
    qed
  qed
qed

lemma startGame_status:
  assumes inv: "store_inv s" and k: "getRoomById s k = Some r"
    and k': "getRoomById (snd (startGame s roomCode userId scaled now)) k = Some r'"
  shows "status r' = status r \<or> status r' = COMPOSING"
proof (cases "getRoomByCode s roomCode")
  case None
  with k k' show ?thesis by (simp add: startGame_absent)
next
  case (Some r0)
  from k k' show ?thesis
    by (auto simp: startGame_found [OF Some] getRoomById_update split: if_splits)
qed

lemma updateUserConnection_status:
  assumes inv: "store_inv s" and k: "getRoomById s k = Some r"
    and k': "getRoomById (snd (updateUserConnection s roomId userId c sock now)) k = Some r'"
  shows "status r' = status r"
proof (cases "getRoomById s roomId")
  case None
  with k k' show ?thesis by (simp add: updateUserConnection_def)
next
  case (Some r0)
  from getRoomById_inv [OF inv Some] have id: "room_id r0 = roomId" by blast
  show ?thesis
  proof (cases "findIndex (\<lambda>p. user_id p = userId) (players r0)")
    case None
    with Some k k' show ?thesis by (simp add: updateUserConnection_def)
  next
    case (Some i)
    from k k' \<open>getRoomById s roomId = Some r0\<close> id show ?thesis
      by (auto simp: updateUserConnection_member [OF \<open>getRoomById s roomId = Some r0\<close> Some]
          getRoomById_update split: if_splits)
  qed
qed

lemma cleanupEntry_lookup:
  assumes "getRoomById (cleanupEntry now acc (roomId, r0)) k = Some r'"
  shows "(k = roomId \<and> status r' = status r0) \<or> getRoomById acc k = Some r'"
  using assms
  by (auto simp: cleanupEntry_def Let_def getRoomById_update getRoomById_delete
      split: if_splits)

lemma cleanup_fold_status:
  assumes "\<forall>e\<in>set es. getRoomById s (fst e) = Some (snd e)"
    and "\<forall>k r'. getRoomById acc k = Some r' \<longrightarrow> (\<exists>r. getRoomById s k = Some r \<and> status r' = status r)"
  shows "\<forall>k r'. getRoomById (foldl (cleanupEntry now) acc es) k = Some r'
           \<longrightarrow> (\<exists>r. getRoomById s k = Some r \<and> status r' = status r)"
  using assms
proof (induction es arbitrary: acc)
  case Nil
  then show ?case by simp
next
  case (Cons e es)
  obtain roomId r0 where e: "e = (roomId, r0)" by (cases e)
  from Cons.prems(1) e have stored: "getRoomById s roomId = Some r0" by simp
  have "\<forall>k r'. getRoomById (cleanupEntry now acc e) k = Some r'
          \<longrightarrow> (\<exists>r. getRoomById s k = Some r \<and> status r' = status r)"
  proof (intro allI impI)
    fix k r' assume "getRoomById (cleanupEntry now acc e) k = Some r'"
    from cleanupEntry_lookup [OF this [unfolded e]] stored Cons.prems(2)
    show "\<exists>r. getRoomById s k = Some r \<and> status r' = status r" by blast
  qed
  with Cons.IH [of "cleanupEntry now acc e"] Cons.prems(1) show ?case by simp
qed

lemma cleanupDisconnectedUsers_status:
  assumes inv: "store_inv s" and k: "getRoomById s k = Some r"
    and k': "getRoomById (cleanupDisconnectedUsers now s) k = Some r'"
  shows "status r' = status r"
proof -
  from inv have "distinct (map fst (rooms s))" by (simp add: store_inv_def)
  then have "\<forall>e\<in>set (rooms s). getRoomById s (fst e) = Some (snd e)"
    by (auto simp: getRoomById_def)
  from cleanup_fold_status [OF this, of s now]
  have "\<forall>k r'. getRoomById (foldl (cleanupEntry now) s (rooms s)) k = Some r'
           \<longrightarrow> (\<exists>r. getRoomById s k = Some r \<and> status r' = status r)" by blast
  with k' obtain r1 where "getRoomById s k = Some r1" "status r' = status r1"
    unfolding cleanupDisconnectedUsers_def by blast
  with k show ?thesis by simp
qed

lemma step_status:
  assumes inv: "store_inv s" and st: "step s c = Some s'"
    and k: "getRoomById s k = Some r" and k': "getRoomById s' k = Some r'"
    and fresh: "createdId c \<noteq> Some k"
  shows "status r' = status r \<or> status r' = COMPOSING"
proof (cases c)
  case (CreateRoom host m draws roomId now)
  with st obtain r0 where "createRoom s host m draws roomId now = Some (r0, s')" by auto
  from createRoom_keeps_rooms [OF this, of k] fresh CreateRoom k k' show ?thesis by simp
next
  case (JoinRoom roomCode u now)
  with st joinRoom_status [OF inv k, of roomCode u now r'] k' show ?thesis by auto
next
  case (LeaveRoom roomCode userId now)
  with st leaveRoom_status [OF inv k, of roomCode userId now r'] k' show ?thesis by auto
next
  case (StartGame roomCode userId scaled now)
  with st startGame_status [OF inv k, of roomCode userId scaled now r'] k' show ?thesis by auto
next
  case (UpdateUserConnection roomId userId conn sock now)
  with st updateUserConnection_status [OF inv k, of roomId userId conn sock now r'] k'
  show ?thesis by auto
next
  case (GetGameState roomId)
  with st k k' show ?thesis by auto
next
  case (CleanupDisconnectedUsers now)
  with st cleanupDisconnectedUsers_status [OF inv k, of now r'] k' show ?thesis by auto
next
  case ResetRoomStorageForTesting
  with st k' show ?thesis by (auto simp: resetRoomStorageForTesting_def getRoomById_def)
qed

lemma room_inv_status:
  assumes "store_inv s" "(roomId, r) \<in> set (rooms s)"
  shows "status r = WAITING \<or> status r = COMPOSING"
  using assms by (auto simp: store_inv_def list_all_iff room_inv_def)

lemma phaseIndex_forward:
  assumes "status r = WAITING \<or> status r = COMPOSING"
    "status r' = status r \<or> status r' = COMPOSING"
  shows "phaseIndex (status r) \<le> phaseIndex (status r')"
  using assms by auto

text \<open>
  C2, as the code has it. On a store reached by calls from the empty store every room is
  \<open>WAITING\<close> or \<open>COMPOSING\<close>, and no call moves the status of a stored room backward
  while the room is stored: the status stays, or becomes \<open>COMPOSING\<close>. The one call set
  apart is a \<open>createRoom\<close> whose new id is the id of that stored room (\<open>createdId\<close>);
  \<^verbatim>\<open>uuidv4\<close> is relied on never to return such an id, and if it did the room would be
  replaced by a new one in \<open>WAITING\<close>. \<open>startGame\<close> does not read the status: on a room
  found by its code it succeeds exactly when the caller is the host and the room has at
  least two members; then it stores and returns the room with status \<open>COMPOSING\<close>, the
  theme at the drawn index and the new \<open>updatedAt\<close>, and otherwise it returns nothing and
  leaves the store as it is.
\<close>

theorem status_forward_only:
  assumes "run emptyStore cs = Some s"
  shows "(\<forall>(roomId, r) \<in> set (rooms s). status r = WAITING \<or> status r = COMPOSING)
       \<and> (step s c = Some s' \<and> getRoomById s k = Some r \<and> getRoomById s' k = Some r'
            \<and> createdId c \<noteq> Some k
          \<longrightarrow> phaseIndex (status r) \<le> phaseIndex (status r')
              \<and> (status r' = status r \<or> status r' = COMPOSING))
       \<and> (getRoomByCode s roomCode = Some r \<longrightarrow>
            (fst (startGame s roomCode userId scaled now) \<noteq> None
               \<longleftrightarrow> hostId r = userId \<and> 2 \<le> length (players r))
            \<and> (hostId r = userId \<and> 2 \<le> length (players r) \<longrightarrow>
                 startGame s roomCode userId scaled now
                 = (Some (r\<lparr>status := COMPOSING,
                            theme := at_index themes \<lfloor>scaled\<rfloor>,
                            updatedAt := now\<rparr>),
                    s\<lparr>rooms := AList.update (room_id r)
                               (r\<lparr>status := COMPOSING,
                                  theme := at_index themes \<lfloor>scaled\<rfloor>,
                                  updatedAt := now\<rparr>) (rooms s)\<rparr>)
                 \<and> getRoomById (snd (startGame s roomCode userId scaled now)) (room_id r)
                     = Some (r\<lparr>status := COMPOSING,
                               theme := at_index themes \<lfloor>scaled\<rfloor>,
                               updatedAt := now\<rparr>))
            \<and> (hostId r \<noteq> userId \<or> length (players r) < 2 \<longrightarrow>
                 startGame s roomCode userId scaled now = (None, s)))
       \<and> (getRoomByCode s roomCode = None
            \<longrightarrow> startGame s roomCode userId scaled now = (None, s))"
proof -
  note inv = reachable_inv [OF assms]
  have a: "\<forall>(roomId, r) \<in> set (rooms s). status r = WAITING \<or> status r = COMPOSING"
    using room_inv_status [OF inv] by blast
  have b: "phaseIndex (status r) \<le> phaseIndex (status r')
              \<and> (status r' = status r \<or> status r' = COMPOSING)"
    if h: "step s c = Some s' \<and> getRoomById s k = Some r \<and> getRoomById s' k = Some r'
            \<and> createdId c \<noteq> Some k"
  proof -
    from h have k: "getRoomById s k = Some r" by simp
    then have "(k, r) \<in> set (rooms s)" by (simp add: getRoomById_def map_of_SomeD)
    from room_inv_status [OF inv this] have before: "status r = WAITING \<or> status r = COMPOSING" .
    from h step_status [OF inv, of c s' k r r']
    have after: "status r' = status r \<or> status r' = COMPOSING" by blast
    from phaseIndex_forward [OF before after] after show ?thesis by simp
  qed
  have c: "(fst (startGame s roomCode userId scaled now) \<noteq> None
               \<longleftrightarrow> hostId r = userId \<and> 2 \<le> length (players r))
            \<and> (hostId r = userId \<and> 2 \<le> length (players r) \<longrightarrow>
                 startGame s roomCode userId scaled now
                 = (Some (r\<lparr>status := COMPOSING,
                            theme := at_index themes \<lfloor>scaled\<rfloor>,
                            updatedAt := now\<rparr>),
                    s\<lparr>rooms := AList.update (room_id r)
                               (r\<lparr>status := COMPOSING,
                                  theme := at_index themes \<lfloor>scaled\<rfloor>,
                                  updatedAt := now\<rparr>) (rooms s)\<rparr>)
                 \<and> getRoomById (snd (startGame s roomCode userId scaled now)) (room_id r)
                     = Some (r\<lparr>status := COMPOSING,
                               theme := at_index themes \<lfloor>scaled\<rfloor>,
                               updatedAt := now\<rparr>))
            \<and> (hostId r \<noteq> userId \<or> length (players r) < 2 \<longrightarrow>
                 startGame s roomCode userId scaled now = (None, s))"
    if "getRoomByCode s roomCode = Some r"
    by (auto simp: startGame_found [OF that] getRoomById_update)
  have d: "startGame s roomCode userId scaled now = (None, s)"
    if "getRoomByCode s roomCode = None"
    by (rule startGame_absent [OF that])
  from a b c d show ?thesis by blast
qed

lemma restart_started:
  "startGame (store_of room_started) ''AAAAAA'' ''h'' 5 4000
   = (Some (room_started\<lparr>theme := Some ''Medieval Castle'', updatedAt := 4000\<rparr>),
      store_of (room_started\<lparr>theme := Some ''Medieval Castle'', updatedAt := 4000\<rparr>))"
  by (simp add: startGame_def concrete_defs at_index_def themes_def)

text \<open>
  C2 as stated fails: after the game has started, the host starts it again; the call
  succeeds on a room that is \<open>COMPOSING\<close>, and draws a new theme.
\<close>

theorem startGame_not_waiting_counterexample:
  "run emptyStore calls_started = Some (store_of room_started)
   \<and> getRoomByCode (store_of room_started) ''AAAAAA'' = Some room_started
   \<and> status room_started = COMPOSING
   \<and> status room_started \<noteq> WAITING
   \<and> startGame (store_of room_started) ''AAAAAA'' ''h'' 5 4000
       = (Some (room_started\<lparr>theme := Some ''Medieval Castle'', updatedAt := 4000\<rparr>),
          store_of (room_started\<lparr>theme := Some ''Medieval Castle'', updatedAt := 4000\<rparr>))
   \<and> fst (startGame (store_of room_started) ''AAAAAA'' ''h'' 5 4000) \<noteq> None"
proof -
  have st: "status room_started = COMPOSING" "status room_started \<noteq> WAITING"
    by (simp_all add: room_started_def)
  have ok: "fst (startGame (store_of room_started) ''AAAAAA'' ''h'' 5 4000) \<noteq> None"
    by (simp add: restart_started)
  show ?thesis
    by (intro conjI run_started getRoomByCode_store_of st restart_started ok)
qed

theorem status_forward_only_witness:
  "run emptyStore calls_joined = Some (store_of room_joined)
   \<and> (''r1'', room_joined) \<in> set (rooms (store_of room_joined))
   \<and> status room_joined = WAITING
   \<and> step (store_of room_joined) (StartGame ''AAAAAA'' ''h'' 0 3000) = Some (store_of room_started)
   \<and> getRoomById (store_of room_joined) ''r1'' = Some room_joined
   \<and> getRoomById (store_of room_started) ''r1'' = Some room_started
   \<and> createdId (StartGame ''AAAAAA'' ''h'' 0 3000) \<noteq> Some ''r1''
   \<and> phaseIndex (status room_joined) \<le> phaseIndex (status room_started)
   \<and> status room_started = COMPOSING
   \<and> getRoomByCode (store_of room_joined) ''AAAAAA'' = Some room_joined
   \<and> hostId room_joined = ''h'' \<and> 2 \<le> length (players room_joined)
   \<and> fst (startGame (store_of room_joined) ''AAAAAA'' ''h'' 0 3000) \<noteq> None
   \<and> startGame (store_of room_joined) ''AAAAAA'' ''h'' 0 3000
       = (Some room_started, store_of room_started)
   \<and> getRoomById (snd (startGame (store_of room_joined) ''AAAAAA'' ''h'' 0 3000))
         (room_id room_joined)
       = Some (room_joined\<lparr>status := COMPOSING, theme := at_index themes \<lfloor>0 :: real\<rfloor>,
                             updatedAt := 3000\<rparr>)
   \<and> hostId room_joined \<noteq> ''p1''
   \<and> startGame (store_of room_joined) ''AAAAAA'' ''p1'' 0 3000 = (None, store_of room_joined)
   \<and> getRoomByCode (store_of room_joined) ''BBBBBB'' = None
   \<and> startGame (store_of room_joined) ''BBBBBB'' ''h'' 0 3000 = (None, store_of room_joined)"
proof -
  have entry: "(''r1'', room_joined) \<in> set (rooms (store_of room_joined))"
    by (simp add: store_of_def)
  have st: "status room_joined = WAITING" "status room_started = COMPOSING"
    "hostId room_joined = ''h''" "2 \<le> length (players room_joined)"
    "hostId room_joined \<noteq> ''p1''"
    by (simp_all add: room_started_def room_joined_def room_created_def)
  have stp: "step (store_of room_joined) (StartGame ''AAAAAA'' ''h'' 0 3000)
             = Some (store_of room_started)"
    by (simp add: start_joined)
  have fresh: "createdId (StartGame ''AAAAAA'' ''h'' 0 3000) \<noteq> Some ''r1''" by simp
  have absent: "getRoomByCode (store_of room_joined) ''BBBBBB'' = None"
    by (simp add: getRoomByCode_def store_of_def)
  note found = getRoomByCode_store_of [of room_joined]
  note a = status_forward_only [OF run_joined, where c = "StartGame ''AAAAAA'' ''h'' 0 3000"
      and s' = "store_of room_started" and k = "''r1''" and r = room_joined
      and r' = room_started and roomCode = "''AAAAAA''" and userId = "''h''" and scaled = 0
      and now = 3000]
  note b = status_forward_only [OF run_joined, where r = room_joined
      and roomCode = "''AAAAAA''" and userId = "''p1''" and scaled = 0 and now = 3000]
  note c = status_forward_only [OF run_joined, where roomCode = "''BBBBBB''"
      and userId = "''h''" and scaled = 0 and now = 3000]
  have pre: "step (store_of room_joined) (StartGame ''AAAAAA'' ''h'' 0 3000)
               = Some (store_of room_started)
             \<and> getRoomById (store_of room_joined) ''r1'' = Some room_joined
             \<and> getRoomById (store_of room_started) ''r1'' = Some room_started
             \<and> createdId (StartGame ''AAAAAA'' ''h'' 0 3000) \<noteq> Some ''r1''"
    by (intro conjI stp getRoomById_store_of fresh)
  note forward = a [THEN conjunct2, THEN conjunct1, THEN mp, OF pre, THEN conjunct1]
  note starts = a [THEN conjunct2, THEN conjunct2, THEN conjunct1, THEN mp, OF found,
      THEN conjunct1, THEN iffD2, OF conjI, OF st(3) st(4)]
  note stored = a [THEN conjunct2, THEN conjunct2, THEN conjunct1, THEN mp, OF found,
      THEN conjunct2, THEN conjunct1, THEN mp, OF conjI, OF st(3) st(4), THEN conjunct2]
  note refused = b [THEN conjunct2, THEN conjunct2, THEN conjunct1, THEN mp, OF found,
      THEN conjunct2, THEN conjunct2, THEN mp, OF disjI1, OF st(5)]
  note unknown_code = c [THEN conjunct2, THEN conjunct2, THEN conjunct2, THEN mp, OF absent]
  show ?thesis
    by (intro conjI run_joined entry st stp getRoomById_store_of fresh forward found starts
        start_joined stored refused absent unknown_code)
qed

subsection \<open>The rooms that can be joined\<close>

lemma insert_by_mset: "mset (insert_by cmp x xs) = add_mset x (mset xs)"
  by (induction xs) auto

lemma sort_by_mset: "mset (sort_by cmp xs) = mset xs"
  unfolding sort_by_def by (induction xs) (auto simp: insert_by_mset)

lemma insert_by_set: "set (insert_by cmp x xs) = insert x (set xs)"
  using insert_by_mset [of cmp x xs] by (metis set_mset_add_mset_insert set_mset_mset)

lemma insert_by_newest_first:
  assumes "sorted_wrt (\<lambda>a b. createdAt b \<le> createdAt a) xs"
  shows "sorted_wrt (\<lambda>a b. createdAt b \<le> createdAt a) (insert_by compareCreatedAt x xs)"
  using assms
proof (induction xs)
  case Nil
  then show ?case by simp
next
  case (Cons y ys)
  show ?case
  proof (cases "compareCreatedAt x y \<le> 0")
    case True
    then have "createdAt y \<le> createdAt x" by (simp add: compareCreatedAt_def)
    with Cons.prems True show ?thesis by force
  next
    case False
    then have "createdAt x \<le> createdAt y" by (simp add: compareCreatedAt_def)
    with Cons False show ?thesis by (auto simp: insert_by_set)
  qed
qed

lemma sort_by_newest_first:
  "sorted_wrt (\<lambda>a b. createdAt b \<le> createdAt a) (sort_by compareCreatedAt xs)"
  unfolding sort_by_def by (induction xs) (simp_all add: insert_by_newest_first)

text \<open>
  C10. \<open>getAvailableRooms\<close> returns the stored rooms that are \<open>WAITING\<close> and have
  fewer members than \<open>maxPlayers\<close>, each as often as it is stored and no other room, in
  descending order of \<open>createdAt\<close>.
\<close>

theorem getAvailableRooms_spec:
  "mset (getAvailableRooms s)
     = filter_mset (\<lambda>r. status r = WAITING \<and> int (length (players r)) < maxPlayers r)
         (mset (map snd (rooms s)))
   \<and> sorted_wrt (\<lambda>a b. createdAt b \<le> createdAt a) (getAvailableRooms s)"
  by (simp add: getAvailableRooms_def sort_by_mset sort_by_newest_first)

theorem getAvailableRooms_spec_witness:
  "getAvailableRooms
     \<lparr>rooms = [(''r1'', room_created),
               (''r2'', room_created\<lparr>room_id := ''r2'', createdAt := 3000\<rparr>),
               (''r3'', room_started\<lparr>room_id := ''r3''\<rparr>),
               (''r4'', room_created\<lparr>room_id := ''r4'', maxPlayers := 1\<rparr>)],
      roomsByCode = Map.empty\<rparr>
   = [room_created\<lparr>room_id := ''r2'', createdAt := 3000\<rparr>, room_created]
   \<and> sorted_wrt (\<lambda>a b. createdAt b \<le> createdAt a)
       (getAvailableRooms
          \<lparr>rooms = [(''r1'', room_created),
                    (''r2'', room_created\<lparr>room_id := ''r2'', createdAt := 3000\<rparr>),
                    (''r3'', room_started\<lparr>room_id := ''r3''\<rparr>),
                    (''r4'', room_created\<lparr>room_id := ''r4'', maxPlayers := 1\<rparr>)],
           roomsByCode = Map.empty\<rparr>)"
proof -
  have "getAvailableRooms
     \<lparr>rooms = [(''r1'', room_created),
               (''r2'', room_created\<lparr>room_id := ''r2'', createdAt := 3000\<rparr>),
               (''r3'', room_started\<lparr>room_id := ''r3''\<rparr>),
               (''r4'', room_created\<lparr>room_id := ''r4'', maxPlayers := 1\<rparr>)],
      roomsByCode = Map.empty\<rparr>
   = [room_created\<lparr>room_id := ''r2'', createdAt := 3000\<rparr>, room_created]"
    by (simp add: getAvailableRooms_def sort_by_def compareCreatedAt_def room_created_def
        room_joined_def room_started_def)
  then show ?thesis
    using getAvailableRooms_spec [of "\<lparr>rooms = [(''r1'', room_created),
               (''r2'', room_created\<lparr>room_id := ''r2'', createdAt := 3000\<rparr>),
               (''r3'', room_started\<lparr>room_id := ''r3''\<rparr>),
               (''r4'', room_created\<lparr>room_id := ''r4'', maxPlayers := 1\<rparr>)],
      roomsByCode = Map.empty\<rparr>", THEN conjunct2]
    by (intro conjI)
qed

end
